theory Spec2Isabelle
  imports Complex_Main "HOL-Library.Word" "HOL-Library.Multiset"
begin

unbundle bit_operations_syntax

section \<open>Cards and hand ranks (types.h)\<close>

text \<open>
  \<^verbatim>\<open>CardInt\<close> is \<^verbatim>\<open>uint8_t\<close>; a card is \<^verbatim>\<open>rank * 4 + suit\<close> with rank in 0..12 and
  suit in 0..3, so every legal card is below 52 and no card arithmetic of the program
  overflows. Cards are natural numbers here; ranks and suits are C++ \<^verbatim>\<open>int\<close>s.
  \<^verbatim>\<open>HandRank\<close> is \<^verbatim>\<open>uint32_t\<close>, a 32-bit word compared as an unsigned number.
\<close>

type_synonym CardInt = nat
type_synonym HandRank = "32 word"

definition CARD_NONE :: CardInt where
  "CARD_NONE = 255"

definition make_card :: "int \<Rightarrow> int \<Rightarrow> CardInt" where
  "make_card rank suit = nat ((rank * 4 + suit) mod 256)"

definition card_rank :: "CardInt \<Rightarrow> int" where
  "card_rank c = int (c div 4)"

definition card_suit :: "CardInt \<Rightarrow> int" where
  "card_suit c = int (c mod 4)"

definition RANK_HIGH_CARD :: int where "RANK_HIGH_CARD = 1"
definition RANK_ONE_PAIR :: int where "RANK_ONE_PAIR = 2"
definition RANK_TWO_PAIR :: int where "RANK_TWO_PAIR = 3"
definition RANK_THREE_OF_A_KIND :: int where "RANK_THREE_OF_A_KIND = 4"
definition RANK_STRAIGHT :: int where "RANK_STRAIGHT = 5"
definition RANK_FLUSH :: int where "RANK_FLUSH = 6"
definition RANK_FULL_HOUSE :: int where "RANK_FULL_HOUSE = 7"
definition RANK_FOUR_OF_A_KIND :: int where "RANK_FOUR_OF_A_KIND = 8"
definition RANK_STRAIGHT_FLUSH :: int where "RANK_STRAIGHT_FLUSH = 9"

text \<open>
  \<^verbatim>\<open>make_hand_rank\<close>: the category in the top 4 bits, five 4-bit tiebreakers below.
  The C++ default arguments (\<^verbatim>\<open>tb1 .. tb5 = 0\<close>) are written out at every call.
\<close>

definition make_hand_rank :: "int \<Rightarrow> int \<Rightarrow> int \<Rightarrow> int \<Rightarrow> int \<Rightarrow> int \<Rightarrow> HandRank" where
  "make_hand_rank rank_type tb1 tb2 tb3 tb4 tb5 =
     push_bit 28 (word_of_int rank_type) OR
     push_bit 20 (word_of_int (tb1 AND 15)) OR
     push_bit 16 (word_of_int (tb2 AND 15)) OR
     push_bit 12 (word_of_int (tb3 AND 15)) OR
     push_bit 8 (word_of_int (tb4 AND 15)) OR
     push_bit 4 (word_of_int (tb5 AND 15))"

definition get_rank_type :: "HandRank \<Rightarrow> int" where
  "get_rank_type rank = uint (drop_bit 28 rank)"

section \<open>Hand evaluator (hand\_evaluator.cpp)\<close>

text \<open>\<^verbatim>\<open>std::sort(..., std::greater<int>())\<close>: the ranks in descending order.\<close>

definition sort_desc :: "int list \<Rightarrow> int list" where
  "sort_desc xs = rev (sort xs)"

text \<open>
  \<^verbatim>\<open>for (int r : ranks) rank_counts[r]++\<close> on an array of 13 zeros. A rank outside
  0..12 (a card that is not below 52) writes outside the array in the C++; the list
  update leaves the histogram unchanged there.
\<close>

definition rank_counts_of :: "int list \<Rightarrow> int list" where
  "rank_counts_of ranks =
     fold (\<lambda>r rc. rc[nat r := rc ! nat r + 1]) ranks (replicate 13 0)"

text \<open>
  The count distribution: the non-zero entries of the histogram, in an array of five
  zeros, the filled prefix sorted in descending order.
\<close>

definition counts_of :: "int list \<Rightarrow> int list" where
  "counts_of rank_counts =
     (let cs = filter (\<lambda>c. c > 0) rank_counts
      in sort_desc cs @ replicate (5 - length cs) 0)"

text \<open>The descending scan \<^verbatim>\<open>for (int r = 12; r >= 0; r--)\<close>.\<close>

definition ranks_down :: "nat list" where
  "ranks_down = rev [0..<13]"

text \<open>
  The scans of the four-of-a-kind and full-house branches: two variables starting at -1,
  the first set where the count is \<open>a\<close>, else the second where the count is \<open>b\<close>;
  the last assignment (the lowest rank) stays.
\<close>

definition scan_two :: "int list \<Rightarrow> int \<Rightarrow> int \<Rightarrow> int \<times> int" where
  "scan_two rank_counts a b =
     fold (\<lambda>r (x, y).
             if rank_counts ! r = a then (int r, y)
             else if rank_counts ! r = b then (x, int r)
             else (x, y))
          ranks_down (-1, -1)"

text \<open>
  The scans of the trips and one-pair branches: one variable starting at -1 and a vector
  of kickers, pushed in descending order.
\<close>

definition scan_kickers :: "int list \<Rightarrow> int \<Rightarrow> int \<times> int list" where
  "scan_kickers rank_counts a =
     fold (\<lambda>r (x, kickers).
             if rank_counts ! r = a then (int r, kickers)
             else if rank_counts ! r = 1 then (x, kickers @ [int r])
             else (x, kickers))
          ranks_down (-1, [])"

text \<open>The scan of the two-pair branch: a vector of pairs and one kicker.\<close>

definition scan_pairs :: "int list \<Rightarrow> int list \<times> int" where
  "scan_pairs rank_counts =
     fold (\<lambda>r (pairs, kicker).
             if rank_counts ! r = 2 then (pairs @ [int r], kicker)
             else if rank_counts ! r = 1 then (pairs, int r)
             else (pairs, kicker))
          ranks_down ([], -1)"

text \<open>\<^verbatim>\<open>kickers.size() > i ? kickers[i] : 0\<close>\<close>

definition kicker_at :: "int list \<Rightarrow> nat \<Rightarrow> int" where
  "kicker_at kickers i = (if length kickers > i then kickers ! i else 0)"

definition straight_of :: "int list \<Rightarrow> bool \<times> int" where
  "straight_of ranks =
     (let num_unique = length (remdups_adj ranks)
      in if num_unique = 5 then
           (if ranks ! 0 - ranks ! 4 = 4 then (True, ranks ! 0)
            else if ranks ! 0 = 12 \<and> ranks ! 1 = 3 \<and> ranks ! 2 = 2 \<and>
                    ranks ! 3 = 1 \<and> ranks ! 4 = 0 then (True, 3)
            else (False, 0))
         else (False, 0))"

definition evaluate_five_internal ::
  "CardInt \<Rightarrow> CardInt \<Rightarrow> CardInt \<Rightarrow> CardInt \<Rightarrow> CardInt \<Rightarrow> HandRank" where
  "evaluate_five_internal c0 c1 c2 c3 c4 =
     (let ranks = sort_desc [card_rank c0, card_rank c1, card_rank c2, card_rank c3, card_rank c4];
          suits = [card_suit c0, card_suit c1, card_suit c2, card_suit c3, card_suit c4];
          is_flush = (suits ! 0 = suits ! 1 \<and> suits ! 1 = suits ! 2 \<and>
                      suits ! 2 = suits ! 3 \<and> suits ! 3 = suits ! 4);
          (is_straight, straight_high) = straight_of ranks;
          rank_counts = rank_counts_of ranks;
          counts = counts_of rank_counts
      in if is_flush \<and> is_straight then
           make_hand_rank RANK_STRAIGHT_FLUSH straight_high 0 0 0 0
         else if counts ! 0 = 4 then
           (let (quad_rank, kicker) = scan_two rank_counts 4 1
            in make_hand_rank RANK_FOUR_OF_A_KIND quad_rank kicker 0 0 0)
         else if counts ! 0 = 3 \<and> counts ! 1 = 2 then
           (let (trip_rank, pair_rank) = scan_two rank_counts 3 2
            in make_hand_rank RANK_FULL_HOUSE trip_rank pair_rank 0 0 0)
         else if is_flush then
           make_hand_rank RANK_FLUSH (ranks ! 0) (ranks ! 1) (ranks ! 2) (ranks ! 3) (ranks ! 4)
         else if is_straight then
           make_hand_rank RANK_STRAIGHT straight_high 0 0 0 0
         else if counts ! 0 = 3 then
           (let (trip_rank, kickers) = scan_kickers rank_counts 3
            in make_hand_rank RANK_THREE_OF_A_KIND trip_rank
                 (kicker_at kickers 0) (kicker_at kickers 1) 0 0)
         else if counts ! 0 = 2 \<and> counts ! 1 = 2 then
           (let (pairs, kicker) = scan_pairs rank_counts
            in make_hand_rank RANK_TWO_PAIR (pairs ! 0) (pairs ! 1) kicker 0 0)
         else if counts ! 0 = 2 then
           (let (pair_rank, kickers) = scan_kickers rank_counts 2
            in make_hand_rank RANK_ONE_PAIR pair_rank
                 (kicker_at kickers 0) (kicker_at kickers 1) (kicker_at kickers 2) 0)
         else
           make_hand_rank RANK_HIGH_CARD (ranks ! 0) (ranks ! 1) (ranks ! 2) (ranks ! 3) (ranks ! 4))"

text \<open>\<^verbatim>\<open>evaluate_five(const CardInt cards[5])\<close> reads the first five cells of the array.\<close>

definition evaluate_five :: "CardInt list \<Rightarrow> HandRank" where
  "evaluate_five cards =
     evaluate_five_internal (cards ! 0) (cards ! 1) (cards ! 2) (cards ! 3) (cards ! 4)"

text \<open>
  The update of both best-of loops:
  \<^verbatim>\<open>HandRank rank = evaluate_five(five); if (rank > best) best = rank;\<close>
\<close>

definition keep_best :: "CardInt list \<Rightarrow> HandRank \<Rightarrow> HandRank" where
  "keep_best five best = (let rank = evaluate_five five in if rank > best then rank else best)"

text \<open>The five cards left when positions \<open>i\<close> and \<open>j\<close> of the seven are skipped.\<close>

definition skip_two :: "nat \<Rightarrow> nat \<Rightarrow> CardInt list \<Rightarrow> CardInt list" where
  "skip_two i j cards = map (\<lambda>k. cards ! k) (filter (\<lambda>k. k \<noteq> i \<and> k \<noteq> j) [0..<7])"

definition evaluate_seven :: "CardInt list \<Rightarrow> HandRank" where
  "evaluate_seven cards =
     fold (\<lambda>i best. fold (\<lambda>j best. keep_best (skip_two i j cards) best) [i + 1..<7] best)
          [0..<7] 0"

text \<open>The five cards left when position \<open>skip\<close> of the six is skipped.\<close>

definition skip_one :: "nat \<Rightarrow> CardInt list \<Rightarrow> CardInt list" where
  "skip_one skip cards = map (\<lambda>i. cards ! i) (filter (\<lambda>i. i \<noteq> skip) [0..<6])"

text \<open>
  \<^verbatim>\<open>evaluate(hole, board, board_size)\<close>: \<open>hole\<close> has two cells and \<open>board\<close> five
  (\<^verbatim>\<open>std::array\<close>); the first \<open>min board_size 5\<close> board cards are copied behind the
  hole cards, and \<open>total = 2 + board_size\<close> selects the branch.
\<close>

definition evaluate :: "CardInt list \<Rightarrow> CardInt list \<Rightarrow> int \<Rightarrow> HandRank" where
  "evaluate hole board board_size =
     (let all_cards = [hole ! 0, hole ! 1] @ take (nat (min board_size 5)) board;
          total = 2 + board_size
      in if total < 5 then 0
         else if total = 5 then evaluate_five all_cards
         else if total = 6 then fold (\<lambda>skip best. keep_best (skip_one skip all_cards) best) [0..<6] 0
         else evaluate_seven all_cards)"

section \<open>The five-card subsets of seven cards\<close>

text \<open>
  The specification's side of the seven-card claim: the sublists of length five of the
  seven cards, each keeping the cards in the order of the array.
\<close>

definition five_card_subsets :: "CardInt list \<Rightarrow> CardInt list list" where
  "five_card_subsets cards = filter (\<lambda>five. length five = 5) (subseqs cards)"

text \<open>\<^verbatim>\<open>card_to_string\<close> of types.h, which names the ranks and suits.\<close>

definition card_to_string :: "CardInt \<Rightarrow> string" where
  "card_to_string c =
     (if c \<ge> 52 then ''??''
      else [''23456789TJQKA'' ! nat (card_rank c), ''cdhs'' ! nat (card_suit c)])"

text \<open>Card masks: a 64-bit set over the 52 cards.\<close>

type_synonym CardMask = "64 word"

definition card_to_mask :: "CardInt \<Rightarrow> CardMask" where
  "card_to_mask c = push_bit c 1"

definition mask_has_card :: "CardMask \<Rightarrow> CardInt \<Rightarrow> bool" where
  "mask_has_card m c = (m AND push_bit c 1 \<noteq> 0)"

definition add_card_to_mask :: "CardMask \<Rightarrow> CardInt \<Rightarrow> CardMask" where
  "add_card_to_mask m c = m OR push_bit c 1"

section \<open>The disk-mapped arena (mmap\_buffer.h)\<close>

text \<open>
  Floats are modelled as real numbers throughout: amounts of chips, regrets and
  probabilities are computed exactly, and the float literals \<^verbatim>\<open>0.01f\<close>, \<^verbatim>\<open>0.1f\<close>, \<^verbatim>\<open>0.5f\<close>
  are the fractions they denote.

  A \<^verbatim>\<open>MmapBuffer<T>\<close> is the mapped memory (a cell for every index; the file is
  truncated to its full size at construction, so every cell below \<open>max_elements_\<close>
  exists from the start), the logical length \<open>count_\<close> and the capacity. The
  fields carry the prefix \<open>buf\<close> in place of the trailing underscore of the C++
  members.
\<close>

datatype error = Overflow string nat

text \<open>The lines that the modelled functions print on \<^verbatim>\<open>stderr\<close>.\<close>

datatype log_line =
    FATAL_access_out_of_bounds nat nat
  | FATAL_const_access_out_of_bounds nat nat
  | ERROR_get_node_data_invalid_id int

record 'a MmapBuffer =
  buf_filename :: string
  buf_data :: "nat \<Rightarrow> 'a"
  buf_count :: nat
  buf_max_elements :: nat

text \<open>
  \<^verbatim>\<open>T& operator[](size_t index)\<close>: past the capacity it prints a line and returns the
  cell 0; otherwise it raises \<open>count_\<close> to \<open>index + 1\<close> when the index is at or past
  the logical end, and returns the cell. The result is the cell read, the lines printed,
  and the buffer afterwards.
\<close>

definition mmap_index :: "'a MmapBuffer \<Rightarrow> nat \<Rightarrow> 'a \<times> log_line list \<times> 'a MmapBuffer" where
  "mmap_index buf index =
     (if index \<ge> buf_max_elements buf then
        (buf_data buf 0, [FATAL_access_out_of_bounds index (buf_max_elements buf)], buf)
      else
        (buf_data buf index, [],
         if index \<ge> buf_count buf then buf\<lparr>buf_count := index + 1\<rparr> else buf))"

text \<open>\<^verbatim>\<open>const T& operator[](size_t index) const\<close>\<close>

definition mmap_index_const :: "'a MmapBuffer \<Rightarrow> nat \<Rightarrow> 'a \<times> log_line list" where
  "mmap_index_const buf index =
     (if index \<ge> buf_max_elements buf then
        (buf_data buf 0, [FATAL_const_access_out_of_bounds index (buf_max_elements buf)])
      else (buf_data buf index, []))"

text \<open>An assignment through the reference that \<^verbatim>\<open>operator[]\<close> returns.\<close>

definition mmap_assign :: "'a MmapBuffer \<Rightarrow> nat \<Rightarrow> 'a \<Rightarrow> log_line list \<times> 'a MmapBuffer" where
  "mmap_assign buf index val =
     (if index \<ge> buf_max_elements buf then
        ([FATAL_access_out_of_bounds index (buf_max_elements buf)],
         buf\<lparr>buf_data := (buf_data buf)(0 := val)\<rparr>)
      else
        ([], (if index \<ge> buf_count buf then buf\<lparr>buf_count := index + 1\<rparr> else buf)
               \<lparr>buf_data := (buf_data buf)(index := val)\<rparr>))"

definition push_back :: "'a MmapBuffer \<Rightarrow> 'a \<Rightarrow> error + 'a MmapBuffer" where
  "push_back buf val =
     (if buf_count buf \<ge> buf_max_elements buf then
        Inl (Overflow (buf_filename buf) (buf_max_elements buf))
      else Inr (buf\<lparr>buf_data := (buf_data buf)(buf_count buf := val), buf_count := buf_count buf + 1\<rparr>))"

definition mmap_size :: "'a MmapBuffer \<Rightarrow> nat" where
  "mmap_size buf = buf_count buf"

definition mmap_clear :: "'a MmapBuffer \<Rightarrow> 'a MmapBuffer" where
  "mmap_clear buf = buf\<lparr>buf_count := 0\<rparr>"

text \<open>A buffer as its constructor leaves it: the fresh file reads as zero bytes.\<close>

definition new_buffer :: "string \<Rightarrow> nat \<Rightarrow> 'a \<Rightarrow> 'a MmapBuffer" where
  "new_buffer filename max_elements zero =
     \<lparr>buf_filename = filename, buf_data = (\<lambda>_. zero), buf_count = 0, buf_max_elements = max_elements\<rparr>"

section \<open>Nodes, actions and the tree pool (cfr\_types.h, game\_tree\_builder.h)\<close>

datatype ActionType = FOLD | CHECK | CALL | BET | RAISE | ALLIN

text \<open>The struct \<^verbatim>\<open>Action { ActionType type; float size; }\<close>.\<close>

record Action =
  action_type :: ActionType
  action_size :: real

definition mk_action :: "ActionType \<Rightarrow> real \<Rightarrow> Action" where
  "mk_action t s = \<lparr>action_type = t, action_size = s\<rparr>"

datatype NodeType = PLAYER | CHANCE | TERMINAL

text \<open>
  \<^verbatim>\<open>enum class Street : uint8_t { FLOP = 0, TURN = 1, RIVER = 2 }\<close>. The builder
  computes \<^verbatim>\<open>(Street)((int)street + 1)\<close>, which leaves the enumeration after the
  river, so a street is its number.
\<close>

type_synonym Street = nat

definition FLOP_street :: Street where "FLOP_street = 0"
definition TURN_street :: Street where "TURN_street = 1"
definition RIVER_street :: Street where "RIVER_street = 2"

record CppNode =
  node_id :: int
  bucket_id :: int
  node_type :: NodeType
  player :: int
  street :: nat
  pot :: real
  stacks :: "real list"
  to_call :: real
  action_start :: nat
  action_count :: nat
  child_start :: nat
  chance_card_start :: nat
  chance_count :: nat
  chance_child_start :: nat
  board :: "CardInt list"
  board_len :: nat

definition is_terminal :: "CppNode \<Rightarrow> bool" where
  "is_terminal node = (node_type node = TERMINAL)"

definition is_chance :: "CppNode \<Rightarrow> bool" where
  "is_chance node = (node_type node = CHANCE)"

definition is_player :: "CppNode \<Rightarrow> bool" where
  "is_player node = (node_type node = PLAYER)"

text \<open>The all-zero node that a fresh cell of the node file holds.\<close>

definition zero_node :: CppNode where
  "zero_node =
     \<lparr>node_id = 0, bucket_id = 0, node_type = PLAYER, player = 0, street = 0, pot = 0,
      stacks = [0, 0], to_call = 0, action_start = 0, action_count = 0, child_start = 0,
      chance_card_start = 0, chance_count = 0, chance_child_start = 0,
      board = [0, 0, 0, 0, 0], board_len = 0\<rparr>"

record TreeDataPool =
  nodes :: "CppNode MmapBuffer"
  actions :: "Action MmapBuffer"
  child_ids :: "int MmapBuffer"
  chance_cards :: "CardInt MmapBuffer"

definition new_pool :: TreeDataPool where
  "new_pool =
     \<lparr>nodes = new_buffer ''tmp/nodes.bin'' 50000000 zero_node,
      actions = new_buffer ''tmp/actions.bin'' 100000000 (mk_action FOLD 0),
      child_ids = new_buffer ''tmp/child_ids.bin'' 100000000 0,
      chance_cards = new_buffer ''tmp/chance_cards.bin'' 10000000 0\<rparr>"

definition pool_clear :: "TreeDataPool \<Rightarrow> TreeDataPool" where
  "pool_clear p =
     \<lparr>nodes = mmap_clear (nodes p), actions = mmap_clear (actions p),
      child_ids = mmap_clear (child_ids p), chance_cards = mmap_clear (chance_cards p)\<rparr>"

record BettingConfig =
  initial_pot :: real
  oop_stack :: real
  ip_stack :: real
  flop_bet_sizes :: "real list"
  turn_bet_sizes :: "real list"
  river_bet_sizes :: "real list"
  flop_raise_sizes :: "real list"
  turn_raise_sizes :: "real list"
  river_raise_sizes :: "real list"
  max_raises :: int

section \<open>The game-tree builder (game\_tree\_builder.cpp)\<close>

text \<open>
  A parameter of a function that has the name of a struct field is written with a
  prime (\<open>pot'\<close>, \<open>player'\<close>, \<open>board'\<close>), since a field is a constant here.

  \<^verbatim>\<open>(size_t)i\<close> for a C++ \<^verbatim>\<open>int\<close>.
\<close>

definition size_t_of_int :: "int \<Rightarrow> nat" where
  "size_t_of_int i = nat (i mod 2 ^ 64)"

subsection \<open>The deduplication key\<close>

text \<open>
  \<^verbatim>\<open>get_state_key\<close> prints the state with \<^verbatim>\<open>std::fixed << std::setprecision(2)\<close>.
  The printed text of a number is determined by its sign and its hundredths, rounded to
  nearest with ties to even; the key is the tuple of the printed fields instead of their
  concatenation. The keys of terminal nodes, \<^verbatim>\<open>"TERM_FOLD_" + n\<close> and
  \<^verbatim>\<open>"TERM_SD_" + n\<close>, are constructors of their own.
\<close>

definition round_half_even :: "real \<Rightarrow> int" where
  "round_half_even x =
     (let f = \<lfloor>x\<rfloor>; d = x - of_int f
      in if d < 1 / 2 then f else if d > 1 / 2 then f + 1
         else if even f then f else f + 1)"

definition fixed2 :: "real \<Rightarrow> bool \<times> int" where
  "fixed2 x = (x < 0, round_half_even (\<bar>x\<bar> * 100))"

datatype StateKey =
    State_key "bool \<times> int" "bool \<times> int" "bool \<times> int" int nat "bool \<times> int" int bool "CardInt list"
  | TERM_FOLD nat
  | TERM_SD nat

definition get_state_key ::
  "real \<Rightarrow> real \<Rightarrow> real \<Rightarrow> int \<Rightarrow> Street \<Rightarrow> CardInt list \<Rightarrow> real \<Rightarrow> real \<Rightarrow> int \<Rightarrow> bool \<Rightarrow> StateKey" where
  "get_state_key oop_s ip_s pot' player' street' board' current_bet actor_invested raise_count is_all_in =
     (let to_call' = current_bet - actor_invested
      in State_key (fixed2 oop_s) (fixed2 ip_s) (fixed2 pot') player' street' (fixed2 to_call')
           raise_count is_all_in board')"

subsection \<open>Writing a node\<close>

record GameTreeBuilder =
  builder_config :: BettingConfig
  builder_pool :: TreeDataPool
  transposition_table :: "StateKey \<rightharpoonup> int"

text \<open>Appending a vector to a buffer, one \<^verbatim>\<open>push_back\<close> after the other.\<close>

fun push_all :: "'a MmapBuffer \<Rightarrow> 'a list \<Rightarrow> error + 'a MmapBuffer" where
  "push_all buf [] = Inr buf"
| "push_all buf (x # xs) =
     (case push_back buf x of Inl e \<Rightarrow> Inl e | Inr buf' \<Rightarrow> push_all buf' xs)"

text \<open>
  \<^verbatim>\<open>for (i < board_len) node.board[i] = board[i]\<close>: the cells past the board keep
  what the struct held.
\<close>

definition copy_board :: "CardInt list \<Rightarrow> CardInt list \<Rightarrow> CardInt list" where
  "copy_board board' old = board' @ drop (length board') old"

text \<open>
  \<^verbatim>\<open>write_node_to_pool\<close>. The local \<^verbatim>\<open>CppNode node;\<close> is not initialised: \<open>uninit\<close>
  is what the struct holds before the assignments. The function assigns every field
  except the board cells past \<open>board_len\<close>.
\<close>

definition write_node_to_pool ::
  "CppNode \<Rightarrow> GameTreeBuilder \<Rightarrow> StateKey \<Rightarrow> int \<Rightarrow> Street \<Rightarrow> real \<Rightarrow> real \<Rightarrow> real \<Rightarrow> real \<Rightarrow>
   Action list \<Rightarrow> int list \<Rightarrow> CardInt list \<Rightarrow> error + (int \<times> GameTreeBuilder)" where
  "write_node_to_pool uninit b key player' street' pot' oop_stack' ip_stack' to_call' acts ids board' =
     (let p = builder_pool b;
          current_id = int (mmap_size (nodes p));
          node = uninit\<lparr>
            node_id := current_id,
            player := player',
            street := street',
            pot := pot',
            stacks := [oop_stack', ip_stack'],
            to_call := max 0 to_call',
            node_type := (if acts = [] then TERMINAL else PLAYER),
            board_len := length board' mod 256,
            board := copy_board board' (board uninit),
            bucket_id := - 1,
            action_start := mmap_size (actions p),
            action_count := length acts mod 256\<rparr>
      in case push_all (actions p) acts of Inl e \<Rightarrow> Inl e | Inr actions' \<Rightarrow>
         (let node = node\<lparr>child_start := mmap_size (child_ids p)\<rparr>
          in case push_all (child_ids p) ids of Inl e \<Rightarrow> Inl e | Inr child_ids' \<Rightarrow>
             (let node = node\<lparr>chance_count := 0, chance_card_start := 0, chance_child_start := 0\<rparr>
              in case push_back (nodes p) node of Inl e \<Rightarrow> Inl e | Inr nodes' \<Rightarrow>
                 Inr (current_id,
                      b\<lparr>builder_pool := p\<lparr>nodes := nodes', actions := actions', child_ids := child_ids'\<rparr>,
                        transposition_table := (transposition_table b)(key \<mapsto> current_id)\<rparr>))))"

subsection \<open>The actions of a decision state\<close>

text \<open>
  What \<^verbatim>\<open>build_recursive\<close> does for a child: write a fold terminal, write a showdown
  terminal (pot, stacks), build a chance node (stacks, pot, next street), or call itself
  (the ten arguments).
\<close>

datatype child_spec =
    Fold_terminal
  | Showdown_terminal real real real
  | Chance_child real real real Street
  | Recursive_child real real real int Street "CardInt list" int real real bool

text \<open>
  The part of \<^verbatim>\<open>build_recursive\<close> after the table lookup and the all-in shortcut:
  \<^verbatim>\<open>local_actions\<close> in the order of the pushes, each action with the child that the
  source builds for it at that point. The enumeration reads the configuration and the ten
  arguments only, never the pool.
\<close>

definition bet_sizes_for :: "BettingConfig \<Rightarrow> bool \<Rightarrow> Street \<Rightarrow> real list" where
  "bet_sizes_for cfg is_bet street' =
     (if is_bet then
        (if street' = FLOP_street then flop_bet_sizes cfg
         else if street' = TURN_street then turn_bet_sizes cfg else river_bet_sizes cfg)
      else
        (if street' = FLOP_street then flop_raise_sizes cfg
         else if street' = TURN_street then turn_raise_sizes cfg else river_raise_sizes cfg))"

text \<open>1. Fold, offered when there is something to call.\<close>

definition fold_action :: "real \<Rightarrow> (Action \<times> child_spec) list" where
  "fold_action to_call' =
     (if to_call' > 1 / 10 then [(mk_action FOLD 0, Fold_terminal)] else [])"

text \<open>2. Check or call.\<close>

definition check_call_action ::
  "real \<Rightarrow> real \<Rightarrow> real \<Rightarrow> int \<Rightarrow> Street \<Rightarrow> CardInt list \<Rightarrow> real \<Rightarrow> real \<Rightarrow>
   (Action \<times> child_spec) list" where
  "check_call_action oop_stack' ip_stack' pot' player' street' board' to_call' actor_stack =
     (if to_call' < 1 / 10 then
        [(mk_action CHECK 0,
          if player' = 1 then
            (if street' = RIVER_street then Showdown_terminal pot' oop_stack' ip_stack'
             else Chance_child oop_stack' ip_stack' pot' (street' + 1))
          else Recursive_child oop_stack' ip_stack' pot' 1 street' board' 0 0 0 False)]
      else
        (let call_amt = min actor_stack to_call';
             next_oop = (if player' = 0 then oop_stack' - call_amt else oop_stack');
             next_ip = (if player' = 1 then ip_stack' - call_amt else ip_stack');
             next_pot = pot' + call_amt;
             next_is_all_in = (next_oop \<le> 1 / 100 \<or> next_ip \<le> 1 / 100)
         in [(mk_action CALL call_amt,
              if street' = RIVER_street \<or> next_is_all_in then
                (if street' = RIVER_street then Showdown_terminal next_pot next_oop next_ip
                 else Chance_child next_oop next_ip next_pot (street' + 1))
              else Chance_child next_oop next_ip next_pot (street' + 1))]))"

text \<open>3. Bet or raise: the loop over the configured sizes.\<close>

definition sized_action ::
  "real \<Rightarrow> real \<Rightarrow> real \<Rightarrow> int \<Rightarrow> Street \<Rightarrow> CardInt list \<Rightarrow> int \<Rightarrow> real \<Rightarrow> real \<Rightarrow> real \<Rightarrow>
   bool \<Rightarrow> real \<Rightarrow> (Action \<times> child_spec) list" where
  "sized_action oop_stack' ip_stack' pot' player' street' board' raise_count current_bet
     to_call' actor_stack is_bet s =
     (let bet_val = (if is_bet then of_int \<lfloor>pot' * s\<rfloor> else of_int \<lfloor>(pot' + to_call') * s\<rfloor>);
          bet_val = (if bet_val < 1 then 1 else bet_val);
          invest = min actor_stack (to_call' + bet_val)
      in if invest \<le> to_call' + 1 / 100 then []
         else
           (let n_oop = (if player' = 0 then oop_stack' - invest else oop_stack');
                n_ip = (if player' = 1 then ip_stack' - invest else ip_stack')
            in [(mk_action (if is_bet then BET else RAISE) invest,
                 Recursive_child n_oop n_ip (pot' + invest) (1 - player') street' board'
                   (raise_count + 1) invest current_bet (invest \<ge> actor_stack - 1 / 100))]))"

text \<open>The all-in that follows the loop, inside the same \<^verbatim>\<open>if\<close>.\<close>

definition allin_action ::
  "real \<Rightarrow> real \<Rightarrow> real \<Rightarrow> int \<Rightarrow> Street \<Rightarrow> CardInt list \<Rightarrow> int \<Rightarrow> real \<Rightarrow> real \<Rightarrow> real \<Rightarrow>
   (Action \<times> child_spec) list" where
  "allin_action oop_stack' ip_stack' pot' player' street' board' raise_count current_bet
     to_call' actor_stack =
     (if actor_stack > to_call' + 1 then
        (let n_oop = (if player' = 0 then 0 else oop_stack');
             n_ip = (if player' = 1 then 0 else ip_stack')
         in [(mk_action ALLIN actor_stack,
              Recursive_child n_oop n_ip (pot' + actor_stack) (1 - player') street' board'
                (raise_count + 1) actor_stack current_bet True)])
      else [])"

definition enumerate_actions ::
  "BettingConfig \<Rightarrow> real \<Rightarrow> real \<Rightarrow> real \<Rightarrow> int \<Rightarrow> Street \<Rightarrow> CardInt list \<Rightarrow> int \<Rightarrow> real \<Rightarrow> real \<Rightarrow>
   (Action \<times> child_spec) list" where
  "enumerate_actions cfg oop_stack' ip_stack' pot' player' street' board' raise_count current_bet actor_invested =
     (let to_call' = current_bet - actor_invested;
          actor_stack = (if player' = 0 then oop_stack' else ip_stack')
      in fold_action to_call'
         @ check_call_action oop_stack' ip_stack' pot' player' street' board' to_call' actor_stack
         @ (if raise_count < max_raises cfg \<and> actor_stack > to_call' + 1 / 100 then
              (let is_bet = (to_call' < 1 / 100);
                   sizes = bet_sizes_for cfg is_bet street'
               in concat (map (sized_action oop_stack' ip_stack' pot' player' street' board'
                                 raise_count current_bet to_call' actor_stack is_bet) sizes)
                  @ allin_action oop_stack' ip_stack' pot' player' street' board' raise_count
                      current_bet to_call' actor_stack)
            else []))"

subsection \<open>The recursion\<close>

text \<open>
  The builder recurses until the betting is closed on the river. The recursion is
  bounded by fuel: \<open>None\<close> is a run that needs more fuel, \<open>Some (Inl e)\<close> a run that
  threw \<open>e\<close>, \<open>Some (Inr x)\<close> a run that returned \<open>x\<close>.
\<close>

definition ok :: "'a \<Rightarrow> (error + 'a) option" where
  "ok x = Some (Inr x)"

definition bind_r :: "(error + 'a) option \<Rightarrow> ('a \<Rightarrow> (error + 'b) option) \<Rightarrow> (error + 'b) option" where
  "bind_r m f = (case m of None \<Rightarrow> None | Some (Inl e) \<Rightarrow> Some (Inl e) | Some (Inr x) \<Rightarrow> f x)"

text \<open>Building the children in order, threading the builder, collecting their ids.\<close>

fun each_child ::
  "('c \<Rightarrow> 's \<Rightarrow> (error + (int \<times> 's)) option) \<Rightarrow> 'c list \<Rightarrow> 's \<Rightarrow> (error + (int list \<times> 's)) option" where
  "each_child f [] s = ok ([], s)"
| "each_child f (c # cs) s =
     bind_r (f c s) (\<lambda>(i, s').
       bind_r (each_child f cs s') (\<lambda>(is, s''). ok (i # is, s'')))"

text \<open>
  The representative cards of a chance node: for each rank 0..12 the first suit whose
  card is not on the board, if there is one.
\<close>

definition board_mask :: "CardInt list \<Rightarrow> CardMask" where
  "board_mask board' = fold (\<lambda>c m. add_card_to_mask m c) board' 0"

definition representative_cards :: "CardInt list \<Rightarrow> CardInt list" where
  "representative_cards board' =
     concat (map (\<lambda>r. case find (\<lambda>c. \<not> mask_has_card (board_mask board') c)
                               (map (\<lambda>s. make_card r s) [0, 1, 2, 3]) of
                         None \<Rightarrow> [] | Some c \<Rightarrow> [c])
                 [0, 1, 2, 3, 4, 5, 6, 7, 8, 9, 10, 11, 12])"

text \<open>
  The chance node itself, written after its children. The local \<^verbatim>\<open>CppNode c_node;\<close>
  is not initialised either, and here the assignments leave out \<open>bucket_id\<close>,
  \<open>player\<close> and \<open>to_call\<close>: these fields of the stored node are what \<open>uninit\<close> held.
\<close>

definition write_chance_node ::
  "CppNode \<Rightarrow> GameTreeBuilder \<Rightarrow> real \<Rightarrow> real \<Rightarrow> real \<Rightarrow> Street \<Rightarrow> CardInt list \<Rightarrow>
   CardInt list \<Rightarrow> int list \<Rightarrow> error + (int \<times> GameTreeBuilder)" where
  "write_chance_node uninit b oop_s ip_s pot' next_street board' chance_cards' chance_child_ids =
     (let p = builder_pool b;
          chance_id = int (mmap_size (nodes p));
          c_node = uninit\<lparr>
            node_id := chance_id,
            node_type := CHANCE,
            pot := pot',
            stacks := [oop_s, ip_s],
            street := next_street,
            board_len := length board' mod 256,
            board := copy_board board' (board uninit),
            chance_card_start := mmap_size (chance_cards p),
            chance_count := length chance_cards' mod 65536\<rparr>
      in case push_all (chance_cards p) chance_cards' of Inl e \<Rightarrow> Inl e | Inr chance_cards'' \<Rightarrow>
         (let c_node = c_node\<lparr>chance_child_start := mmap_size (child_ids p)\<rparr>
          in case push_all (child_ids p) chance_child_ids of Inl e \<Rightarrow> Inl e | Inr child_ids' \<Rightarrow>
             (let c_node = c_node\<lparr>action_count := 0, action_start := 0, child_start := 0\<rparr>
              in case push_back (nodes p) c_node of Inl e \<Rightarrow> Inl e | Inr nodes' \<Rightarrow>
                 Inr (chance_id,
                      b\<lparr>builder_pool :=
                          p\<lparr>nodes := nodes', chance_cards := chance_cards'', child_ids := child_ids'\<rparr>\<rparr>))))"

text \<open>
  \<^verbatim>\<open>build_recursive\<close> and \<^verbatim>\<open>add_chance_node_recursive\<close>. The parameter \<open>g\<close> gives,
  for the number of the node being assembled, what its uninitialised struct holds.
\<close>

fun build_recursive ::
  "nat \<Rightarrow> (nat \<Rightarrow> CppNode) \<Rightarrow> GameTreeBuilder \<Rightarrow> real \<Rightarrow> real \<Rightarrow> real \<Rightarrow> int \<Rightarrow> Street \<Rightarrow>
   CardInt list \<Rightarrow> int \<Rightarrow> real \<Rightarrow> real \<Rightarrow> bool \<Rightarrow> (error + (int \<times> GameTreeBuilder)) option"
and add_chance_node_recursive ::
  "nat \<Rightarrow> (nat \<Rightarrow> CppNode) \<Rightarrow> GameTreeBuilder \<Rightarrow> real \<Rightarrow> real \<Rightarrow> real \<Rightarrow> Street \<Rightarrow>
   CardInt list \<Rightarrow> (error + (int \<times> GameTreeBuilder)) option"
where
  "build_recursive 0 g b oop_stack' ip_stack' pot' player' street' board' raise_count
     current_bet actor_invested is_all_in = None"
| "build_recursive (Suc n) g b oop_stack' ip_stack' pot' player' street' board' raise_count
     current_bet actor_invested is_all_in =
     (if street' > RIVER_street then ok (- 1, b)
      else
        (let key = get_state_key oop_stack' ip_stack' pot' player' street' board'
                     current_bet actor_invested raise_count is_all_in
         in case transposition_table b key of
              Some i \<Rightarrow> ok (i, b)
            | None \<Rightarrow>
               (let to_call' = current_bet - actor_invested
                in if is_all_in \<and> to_call' < 1 / 100 then
                     (if street' = RIVER_street then
                        Some (write_node_to_pool (g (mmap_size (nodes (builder_pool b)))) b key
                                player' street' pot' oop_stack' ip_stack' to_call' [] [] board')
                      else
                        bind_r (add_chance_node_recursive n g b oop_stack' ip_stack' pot'
                                  (street' + 1) board')
                          (\<lambda>(chance_id, b1).
                             Some (write_node_to_pool (g (mmap_size (nodes (builder_pool b1)))) b1 key
                                     player' street' pot' oop_stack' ip_stack' to_call'
                                     [mk_action CALL 0] [chance_id] board')))
                   else
                     (let acts = enumerate_actions (builder_config b) oop_stack' ip_stack' pot'
                                   player' street' board' raise_count current_bet actor_invested
                      in bind_r
                           (each_child
                              (\<lambda>c b1.
                                 case c of
                                   Fold_terminal \<Rightarrow>
                                     Some (write_node_to_pool (g (mmap_size (nodes (builder_pool b1)))) b1
                                             (TERM_FOLD (mmap_size (nodes (builder_pool b1))))
                                             player' street' 0 oop_stack' ip_stack' 0 [] [] board')
                                 | Showdown_terminal t_pot t_oop t_ip \<Rightarrow>
                                     Some (write_node_to_pool (g (mmap_size (nodes (builder_pool b1)))) b1
                                             (TERM_SD (mmap_size (nodes (builder_pool b1))))
                                             player' street' t_pot t_oop t_ip 0 [] [] board')
                                 | Chance_child c_oop c_ip c_pot next_street \<Rightarrow>
                                     add_chance_node_recursive n g b1 c_oop c_ip c_pot next_street board'
                                 | Recursive_child r_oop r_ip r_pot r_player r_street r_board
                                     r_raise_count r_current_bet r_actor_invested r_is_all_in \<Rightarrow>
                                     build_recursive n g b1 r_oop r_ip r_pot r_player r_street r_board
                                       r_raise_count r_current_bet r_actor_invested r_is_all_in)
                              (map snd acts) b)
                           (\<lambda>(local_child_ids, b1).
                              Some (write_node_to_pool (g (mmap_size (nodes (builder_pool b1)))) b1 key
                                      player' street' pot' oop_stack' ip_stack' to_call'
                                      (map fst acts) local_child_ids board'))))))"
| "add_chance_node_recursive 0 g b oop_s ip_s pot' next_street board' = None"
| "add_chance_node_recursive (Suc n) g b oop_s ip_s pot' next_street board' =
     (let chance_cards' = representative_cards board'
      in bind_r
           (each_child
              (\<lambda>representative_card b1.
                 build_recursive n g b1 oop_s ip_s pot' 0 next_street
                   (board' @ [representative_card]) 0 0 0 (oop_s < 1 / 100 \<or> ip_s < 1 / 100))
              chance_cards' b)
           (\<lambda>(chance_child_ids, b1).
              Some (write_chance_node (g (mmap_size (nodes (builder_pool b1)))) b1 oop_s ip_s pot'
                      next_street board' chance_cards' chance_child_ids)))"

text \<open>
  \<^verbatim>\<open>build_tree\<close>: slot 0 is reserved with a dummy (an uninitialised struct with
  \<open>node_id = 0\<close>), the tree is built, and the root is copied into slot 0.
\<close>

definition build_tree ::
  "nat \<Rightarrow> (nat \<Rightarrow> CppNode) \<Rightarrow> BettingConfig \<Rightarrow> CardInt list \<Rightarrow> (error + TreeDataPool) option" where
  "build_tree fuel g cfg board' =
     (let p = pool_clear new_pool;
          dummy = (g 0)\<lparr>node_id := 0\<rparr>
      in case push_back (nodes p) dummy of
           Inl e \<Rightarrow> Some (Inl e)
         | Inr nodes' \<Rightarrow>
            (let b = \<lparr>builder_config = cfg, builder_pool = p\<lparr>nodes := nodes'\<rparr>,
                      transposition_table = Map.empty\<rparr>;
                 initial_street =
                   (if length board' = 3 then FLOP_street
                    else if length board' = 4 then TURN_street else RIVER_street)
             in bind_r (build_recursive fuel g b (oop_stack cfg) (ip_stack cfg) (initial_pot cfg)
                          0 initial_street board' 0 0 0 False)
                  (\<lambda>(real_root_id, b1).
                     let p1 = builder_pool b1
                     in if real_root_id \<noteq> 0 then
                          (let (root_data, _, nodes1) = mmap_index (nodes p1) (size_t_of_int real_root_id);
                               root_data = root_data\<lparr>node_id := 0\<rparr>;
                               (_, nodes2) = mmap_assign nodes1 0 root_data
                           in ok (p1\<lparr>nodes := nodes2\<rparr>))
                        else ok p1)))"

section \<open>The CFR engine (cfr\_types.h, cfr\_engine.h, cfr\_engine.cpp)\<close>

record Combo =
  cards :: "CardInt list"
  weight :: real
  hand_str :: string

text \<open>
  \<^verbatim>\<open>NodeRegrets\<close>: two \<^verbatim>\<open>unordered_map<int, vector<float>>\<close>, keyed by the combo index.
\<close>

record NodeRegrets =
  regrets :: "int \<rightharpoonup> real list"
  cumulative_strategy :: "int \<rightharpoonup> real list"

record CFRConfig =
  alpha :: real
  beta :: real
  gamma :: real
  base_sample_size :: int
  use_parallel :: bool
  num_threads :: int

text \<open>The default member initialisers of \<^verbatim>\<open>CFRConfig\<close>.\<close>

definition default_config :: CFRConfig where
  "default_config =
     \<lparr>alpha = 3 / 2, beta = 0, gamma = 2, base_sample_size = 64, use_parallel = True,
      num_threads = 0\<rparr>"

text \<open>
  The members of \<^verbatim>\<open>CppCFREngine\<close> that the modelled functions read or write (the
  trailing underscore of the C++ names is dropped). \<open>pool\<close> is the \<^verbatim>\<open>unique_ptr\<close>,
  \<open>None\<close> when it is null. The mutexes guard the regret store against other threads
  and have no part in a sequential run.
\<close>

record CppCFREngine =
  config :: CFRConfig
  pool :: "TreeDataPool option"
  root_id :: int
  oop_combos :: "Combo list"
  ip_combos :: "Combo list"
  initial_board :: "CardInt list"
  node_regrets :: "NodeRegrets list"
  iteration_regrets :: "real list"
  max_iterations :: int
  should_stop :: bool

text \<open>
  The value of \<^verbatim>\<open>(*pool_->nodes)[node_id]\<close>. The engine reaches the pool through the
  \<^verbatim>\<open>unique_ptr\<close>, so also its \<^verbatim>\<open>const\<close> methods call the mutable \<^verbatim>\<open>operator[]\<close>;
  the functions below that only return a number read the cell and leave the change of
  \<open>count_\<close> (none for an index below the logical end) aside. They dereference
  \<^verbatim>\<open>pool_\<close> without a check; on a null pool the C++ is undefined, and the value
  is unspecified here.
\<close>

definition node_at :: "CppCFREngine \<Rightarrow> int \<Rightarrow> CppNode" where
  "node_at e i = fst (mmap_index (nodes (the (pool e))) (size_t_of_int i))"

subsection \<open>Card conflicts\<close>

definition cards_conflict :: "CardInt list \<Rightarrow> CardInt list \<Rightarrow> bool" where
  "cards_conflict h1 h2 =
     (h1 ! 0 = h2 ! 0 \<or> h1 ! 0 = h2 ! 1 \<or> h1 ! 1 = h2 ! 0 \<or> h1 ! 1 = h2 ! 1)"

definition cards_conflict_board :: "CardInt list \<Rightarrow> CardInt list \<Rightarrow> nat \<Rightarrow> bool" where
  "cards_conflict_board hole board' board_len' =
     (\<exists>i \<in> set [0..<board_len']. board' ! i = hole ! 0 \<or> board' ! i = hole ! 1)"

definition cards_conflict_card :: "CardInt \<Rightarrow> CardInt list \<Rightarrow> bool" where
  "cards_conflict_card c hole = (c = hole ! 0 \<or> c = hole ! 1)"

subsection \<open>Terminal values\<close>

text \<open>
  \<^verbatim>\<open>terminal_ev\<close>. Before the river the equity is a Monte-Carlo estimate drawn from a
  thread-local random generator; \<open>calc\<close> stands for what
  \<^verbatim>\<open>EquityCalculator::calculate_equity\<close> returns on that call. The board array
  \<^verbatim>\<open>b_arr\<close> receives the first \<open>min board_len 5\<close> cards of the node; its other cells
  are never read.
\<close>

definition terminal_ev ::
  "(CardInt list \<Rightarrow> CardInt list \<Rightarrow> CardInt list \<Rightarrow> int \<Rightarrow> int \<Rightarrow> real) \<Rightarrow>
   CppCFREngine \<Rightarrow> CppNode \<Rightarrow> int \<Rightarrow> int \<Rightarrow> int \<Rightarrow> real" where
  "terminal_ev calc e node player' my_idx opp_idx =
     (let initial_stack = stacks (node_at e (root_id e)) ! nat player'
      in if pot node < 1 / 100 then stacks node ! nat player' - initial_stack
         else
           (let my_c = (if player' = 0 then oop_combos e ! nat my_idx else ip_combos e ! nat my_idx);
                opp_c = (if player' = 0 then ip_combos e ! nat opp_idx else oop_combos e ! nat opp_idx);
                b_arr = take (min (board_len node) 5) (board node);
                equity =
                  (if board_len node = 5 then
                     (let r1 = evaluate (cards my_c) b_arr 5;
                          r2 = evaluate (cards opp_c) b_arr 5
                      in if r1 > r2 then 1 else if r1 < r2 then 0 else 1 / 2)
                   else calc (cards my_c) (cards opp_c) b_arr (int (board_len node)) 50)
            in equity * pot node - (initial_stack - stacks node ! nat player')))"

subsection \<open>Regret matching\<close>

text \<open>
  \<^verbatim>\<open>get_current_strategy\<close> (its \<^verbatim>\<open>player\<close> and \<^verbatim>\<open>iteration\<close> parameters are unused).
  The loop over the actions fills the strategy with the positive parts of the regrets
  and adds them up.
\<close>

definition positive_regrets :: "real list \<Rightarrow> nat \<Rightarrow> real list \<times> real" where
  "positive_regrets r k =
     fold (\<lambda>a (strategy, sum).
             let strategy = strategy[a := max 0 (r ! a)]
             in (strategy, sum + strategy ! a))
          [0..<k] (replicate k 0, 0)"

definition get_current_strategy :: "CppCFREngine \<Rightarrow> int \<Rightarrow> int \<Rightarrow> int \<Rightarrow> int \<Rightarrow> real list" where
  "get_current_strategy e node_id' player' combo_idx iteration =
     (let node = node_at e node_id';
          k = action_count node;
          (strategy, sum) =
            (if node_id' < int (length (node_regrets e)) then
               (case regrets (node_regrets e ! nat node_id') combo_idx of
                  Some r \<Rightarrow> positive_regrets r k
                | None \<Rightarrow> (replicate k 0, 0))
             else (replicate k 0, 0))
      in if sum > 0 then map (\<lambda>s. s / sum) strategy
         else replicate k (1 / real k))"

subsection \<open>Discounting and the solve loop\<close>

text \<open>
  \<^verbatim>\<open>apply_discount\<close>. \<^verbatim>\<open>std::pow\<close> of the positive iteration number is the real power
  \<open>powr\<close>.
\<close>

definition discount_regret :: "real \<Rightarrow> real \<Rightarrow> real" where
  "discount_regret d val = (if val < 0 then val * (1 / 2) else val * d)"

definition apply_discount :: "CppCFREngine \<Rightarrow> int \<Rightarrow> CppCFREngine" where
  "apply_discount e iteration =
     (let d = real_of_int iteration powr alpha (config e) /
                (real_of_int iteration powr alpha (config e) + 1);
          dc = real_of_int iteration powr gamma (config e) /
                 (real_of_int iteration powr gamma (config e) + 1)
      in e\<lparr>node_regrets :=
             map (\<lambda>nr. nr\<lparr>regrets := map_option (map (discount_regret d)) \<circ> regrets nr,
                          cumulative_strategy :=
                            map_option (map (\<lambda>val. val * dc)) \<circ> cumulative_strategy nr\<rparr>)
                 (node_regrets e)\<rparr>)"

text \<open>
  The body of the loop of \<^verbatim>\<open>solve\<close> for iteration \<open>t\<close>. \<^verbatim>\<open>run_iteration\<close> samples
  hands and actions at random and may run while another thread calls \<^verbatim>\<open>stop()\<close>;
  it is a parameter, a function of the iteration number and the engine. The progress
  callback is any function of the engine, called when \<open>t\<close> is a multiple of 10 or the
  last iteration. \<^verbatim>\<open>precompute_river_ranks\<close>, called before the loop, fills two vectors
  that no other function reads; they are not members of the record.
\<close>

definition solve_iteration ::
  "(int \<Rightarrow> CppCFREngine \<Rightarrow> CppCFREngine) \<Rightarrow> (int \<Rightarrow> int \<Rightarrow> CppCFREngine \<Rightarrow> CppCFREngine) option \<Rightarrow>
   int \<Rightarrow> int \<Rightarrow> CppCFREngine \<Rightarrow> CppCFREngine" where
  "solve_iteration run_iteration progress_callback iterations t e =
     (let e = run_iteration t e;
          e = (if t mod 2 = 0 then apply_discount e t else e)
      in case progress_callback of
           Some cb \<Rightarrow> (if t mod 10 = 0 \<or> t = iterations then cb t iterations e else e)
         | None \<Rightarrow> e)"

function solve_loop ::
  "(int \<Rightarrow> CppCFREngine \<Rightarrow> CppCFREngine) \<Rightarrow> (int \<Rightarrow> int \<Rightarrow> CppCFREngine \<Rightarrow> CppCFREngine) option \<Rightarrow>
   int \<Rightarrow> int \<Rightarrow> CppCFREngine \<Rightarrow> CppCFREngine" where
  "solve_loop run_iteration progress_callback iterations t e =
     (if t \<le> iterations \<and> \<not> should_stop e then
        solve_loop run_iteration progress_callback iterations (t + 1)
          (solve_iteration run_iteration progress_callback iterations t e)
      else e)"
  by pat_completeness auto
termination
  by (relation "measure (\<lambda>(run_iteration, progress_callback, iterations, t, e). nat (iterations + 1 - t))")
     auto

declare solve_loop.simps [simp del]

definition solve ::
  "(int \<Rightarrow> CppCFREngine \<Rightarrow> CppCFREngine) \<Rightarrow> (int \<Rightarrow> int \<Rightarrow> CppCFREngine \<Rightarrow> CppCFREngine) option \<Rightarrow>
   int \<Rightarrow> CppCFREngine \<Rightarrow> CppCFREngine" where
  "solve run_iteration progress_callback iterations e =
     solve_loop run_iteration progress_callback iterations 1
       (e\<lparr>max_iterations := iterations, iteration_regrets := [], should_stop := False\<rparr>)"

text \<open>
  The specification's side of the solve loop, in its words: for each iteration number of
  1..N in turn, unless the stop flag is set, run the iteration, then (every two
  iterations, that is when \<open>t\<close> is even) apply the discount with \<open>t\<close>, then report
  progress when \<open>t\<close> is a multiple of 10 or the last iteration.
\<close>

definition spec_report_progress ::
  "(int \<Rightarrow> int \<Rightarrow> CppCFREngine \<Rightarrow> CppCFREngine) option \<Rightarrow> int \<Rightarrow> int \<Rightarrow> CppCFREngine \<Rightarrow> CppCFREngine" where
  "spec_report_progress progress_callback iterations t e =
     (case progress_callback of
        Some cb \<Rightarrow> (if t mod 10 = 0 \<or> t = iterations then cb t iterations e else e)
      | None \<Rightarrow> e)"

primrec spec_solve_steps ::
  "(int \<Rightarrow> CppCFREngine \<Rightarrow> CppCFREngine) \<Rightarrow> (int \<Rightarrow> int \<Rightarrow> CppCFREngine \<Rightarrow> CppCFREngine) option \<Rightarrow>
   int \<Rightarrow> int list \<Rightarrow> CppCFREngine \<Rightarrow> CppCFREngine" where
  "spec_solve_steps run_iteration progress_callback iterations [] e = e"
| "spec_solve_steps run_iteration progress_callback iterations (t # ts) e =
     (if should_stop e then e
      else spec_solve_steps run_iteration progress_callback iterations ts
             (spec_report_progress progress_callback iterations t
                (if even t then apply_discount (run_iteration t e) t else run_iteration t e)))"

subsection \<open>Node data for the front-end\<close>

text \<open>The values that \<^verbatim>\<open>py::cast\<close> builds in \<^verbatim>\<open>get_node_data\<close>.\<close>

datatype py_object =
    Py_int int
  | Py_float real
  | Py_str string
  | Py_float_list "real list"
  | Py_str_list "string list"
  | Py_int_list "int list"
  | Py_pair_list "(int \<times> int) list"

text \<open>\<^verbatim>\<open>std::to_string\<close> of an \<^verbatim>\<open>int\<close>, and the conversion \<^verbatim>\<open>(int)size\<close> of a float.\<close>

fun string_of_nat :: "nat \<Rightarrow> string" where
  "string_of_nat n =
     (if n < 10 then [char_of (48 + n)]
      else string_of_nat (n div 10) @ [char_of (48 + n mod 10)])"

definition string_of_int :: "int \<Rightarrow> string" where
  "string_of_int i = (if i < 0 then CHR ''-'' # string_of_nat (nat (- i)) else string_of_nat (nat i))"

definition int_of_float :: "real \<Rightarrow> int" where
  "int_of_float x = (if x \<ge> 0 then \<lfloor>x\<rfloor> else \<lceil>x\<rceil>)"

definition action_to_string :: "Action \<Rightarrow> string" where
  "action_to_string a =
     (case action_type a of
        FOLD \<Rightarrow> ''fold''
      | CHECK \<Rightarrow> ''check''
      | CALL \<Rightarrow> ''call ('' @ string_of_int (int_of_float (action_size a)) @ '')''
      | BET \<Rightarrow> ''bet '' @ string_of_int (int_of_float (action_size a))
      | RAISE \<Rightarrow> ''raise '' @ string_of_int (int_of_float (action_size a))
      | ALLIN \<Rightarrow> ''allin ('' @ string_of_int (int_of_float (action_size a)) @ '')'')"

text \<open>
  The guarded reads of the loops of \<^verbatim>\<open>get_node_data\<close>:
  \<^verbatim>\<open>if (idx < buf->size()) out.push_back((*buf)[idx]);\<close> for each index in turn, with the
  lines printed and the buffer afterwards.
\<close>

definition read_guarded ::
  "'a MmapBuffer \<Rightarrow> nat list \<Rightarrow> 'a list \<times> log_line list \<times> 'a MmapBuffer" where
  "read_guarded buf idxs =
     fold (\<lambda>idx (out, lg, buf).
             if idx < mmap_size buf then
               (let (v, l, buf') = mmap_index buf idx in (out @ [v], lg @ l, buf'))
             else (out, lg, buf))
          idxs ([], [], buf)"

definition get_node_data ::
  "CppCFREngine \<Rightarrow> int \<Rightarrow> (string \<rightharpoonup> py_object) \<times> log_line list \<times> CppCFREngine" where
  "get_node_data e node_id' =
     (case pool e of
        None \<Rightarrow> (Map.empty, [ERROR_get_node_data_invalid_id node_id'], e)
      | Some p \<Rightarrow>
         if node_id' < 0 \<or> size_t_of_int node_id' \<ge> mmap_size (nodes p) then
           (Map.empty, [ERROR_get_node_data_invalid_id node_id'], e)
         else
           (let (node, lg0, nodes') = mmap_index (nodes p) (size_t_of_int node_id');
                type_str = (if is_terminal node then ''terminal''
                            else if is_chance node then ''chance'' else ''player'');
                data = [''id'' \<mapsto> Py_int (node_id node),
                        ''player'' \<mapsto> Py_int (player node),
                        ''street'' \<mapsto> Py_int (int (street node)),
                        ''pot'' \<mapsto> Py_float (pot node),
                        ''stacks'' \<mapsto> Py_float_list [stacks node ! 0, stacks node ! 1],
                        ''to_call'' \<mapsto> Py_float (to_call node),
                        ''type'' \<mapsto> Py_str type_str];
                (acts, lg1, actions') =
                  read_guarded (actions p) (map (\<lambda>i. action_start node + i) [0..<action_count node]);
                (ids, lg2, child_ids') =
                  read_guarded (child_ids p) (map (\<lambda>i. child_start node + i) [0..<action_count node]);
                data = data(''actions'' \<mapsto> Py_str_list (map action_to_string acts),
                            ''child_ids'' \<mapsto> Py_int_list ids,
                            ''board'' \<mapsto> Py_pair_list
                               (map (\<lambda>i. (card_rank (board node ! i), card_suit (board node ! i)))
                                    [0..<board_len node]))
            in if is_chance node then
                 (let (ccards, lg3, chance_cards') =
                        read_guarded (chance_cards p)
                          (map (\<lambda>i. chance_card_start node + i) [0..<chance_count node]);
                      (cids, lg4, child_ids'') =
                        read_guarded child_ids'
                          (map (\<lambda>i. chance_child_start node + i) [0..<chance_count node])
                  in (data(''chance_cards'' \<mapsto> Py_pair_list (map (\<lambda>c. (card_rank c, card_suit c)) ccards),
                           ''chance_child_ids'' \<mapsto> Py_int_list cids),
                      lg0 @ lg1 @ lg2 @ lg3 @ lg4,
                      e\<lparr>pool := Some \<lparr>nodes = nodes', actions = actions', child_ids = child_ids'',
                                      chance_cards = chance_cards'\<rparr>\<rparr>))
               else
                 (data, lg0 @ lg1 @ lg2,
                  e\<lparr>pool := Some \<lparr>nodes = nodes', actions = actions', child_ids = child_ids',
                                  chance_cards = chance_cards p\<rparr>\<rparr>)))"

section \<open>Concrete inputs\<close>

text \<open>A small buffer: capacity 4, logical length 1, the cells holding 10, 20, 30, 40.\<close>

definition example_buffer :: "nat MmapBuffer" where
  "example_buffer =
     \<lparr>buf_filename = ''tmp/example.bin'', buf_data = (\<lambda>i. 10 * (i + 1)), buf_count = 1,
      buf_max_elements = 4\<rparr>"

text \<open>A pool that holds the given nodes and nothing else.\<close>

definition pool_of_nodes :: "CppNode list \<Rightarrow> TreeDataPool" where
  "pool_of_nodes ns =
     new_pool\<lparr>nodes := (nodes new_pool)\<lparr>buf_data := (\<lambda>i. if i < length ns then ns ! i else zero_node),
                                          buf_count := length ns\<rparr>\<rparr>"

text \<open>
  The one-node game with three actions and the cumulative regrets (3, -1, 2) for the
  combo 0 at the node 0 (and a cumulative strategy (2, 0, 1) there).
\<close>

definition three_action_engine :: CppCFREngine where
  "three_action_engine =
     \<lparr>config = default_config,
      pool = Some (pool_of_nodes [zero_node\<lparr>action_count := 3\<rparr>]),
      root_id = 0, oop_combos = [], ip_combos = [], initial_board = [],
      node_regrets = [\<lparr>regrets = [0 \<mapsto> [3, - 1, 2]], cumulative_strategy = [0 \<mapsto> [2, 0, 1]]\<rparr>],
      iteration_regrets = [], max_iterations = 100, should_stop = False\<rparr>"

text \<open>
  A river tree as the builder lays it out for check, check: the root in slot 0 (pot 100,
  both stacks 100, board 2c 2d 2h 7s 9c) and the showdown terminal in slot 1, with the
  pot and the stacks of the root. Aces (As Ah) for the out-of-position player against
  kings (Ks Kh).
\<close>

definition river_root_node :: CppNode where
  "river_root_node =
     zero_node\<lparr>node_type := PLAYER, street := 2, pot := 100, stacks := [100, 100],
               board := [0, 1, 2, 23, 28], board_len := 5\<rparr>"

definition river_node :: CppNode where
  "river_node =
     zero_node\<lparr>node_id := 1, node_type := TERMINAL, player := 1, street := 2, pot := 100,
               stacks := [100, 100], board := [0, 1, 2, 23, 28], board_len := 5\<rparr>"

definition river_engine :: CppCFREngine where
  "river_engine =
     \<lparr>config = default_config,
      pool = Some (pool_of_nodes [river_root_node, river_node]),
      root_id = 0,
      oop_combos = [\<lparr>cards = [51, 50], weight = 1, hand_str = ''AA''\<rparr>],
      ip_combos = [\<lparr>cards = [47, 46], weight = 1, hand_str = ''KK''\<rparr>],
      initial_board = [0, 1, 2, 23, 28],
      node_regrets = [], iteration_regrets = [], max_iterations = 100, should_stop = False\<rparr>"

text \<open>
  A stand-in for the Monte-Carlo estimate, which a river showdown never asks for.
\<close>

definition half_equity :: "CardInt list \<Rightarrow> CardInt list \<Rightarrow> CardInt list \<Rightarrow> int \<Rightarrow> int \<Rightarrow> real" where
  "half_equity hero villain board' board_size num_simulations = 1 / 2"



text \<open>
  A turn build without bets: the board 2c 2d 2h 7s, a pot of 10, stacks of 100, no bet
  or raise sizes and no raises allowed.
\<close>

definition check_down_config :: BettingConfig where
  "check_down_config =
     \<lparr>initial_pot = 10, oop_stack = 100, ip_stack = 100,
      flop_bet_sizes = [], turn_bet_sizes = [], river_bet_sizes = [],
      flop_raise_sizes = [], turn_raise_sizes = [], river_raise_sizes = [],
      max_raises = 0\<rparr>"

definition turn_board :: "CardInt list" where
  "turn_board = [0, 1, 2, 23]"

text \<open>
  Uninitialised structs: whatever the stack held. Here every such struct holds the
  bytes of a node whose \<open>to_call\<close> reads as -1.
\<close>

definition stack_garbage :: "nat \<Rightarrow> CppNode" where
  "stack_garbage i = zero_node\<lparr>to_call := - 1, player := 7, bucket_id := 12345\<rparr>"

section \<open>Properties of the hand evaluator\<close>

lemmas RANK_defs =
  RANK_HIGH_CARD_def RANK_ONE_PAIR_def RANK_TWO_PAIR_def RANK_THREE_OF_A_KIND_def
  RANK_STRAIGHT_def RANK_FLUSH_def RANK_FULL_HOUSE_def RANK_FOUR_OF_A_KIND_def
  RANK_STRAIGHT_FLUSH_def

subsection \<open>Every five-card rank is above zero\<close>

lemma make_hand_rank_ge: "push_bit 28 (word_of_int t) \<le> make_hand_rank t a b c d e"
  unfolding make_hand_rank_def by (rule le_word_or2)

lemma make_hand_rank_pos:
  assumes "1 \<le> t" "t \<le> 9"
  shows "0 < make_hand_rank t a b c d e"
proof -
  from assms have "t = 1 \<or> t = 2 \<or> t = 3 \<or> t = 4 \<or> t = 5 \<or> t = 6 \<or> t = 7 \<or> t = 8 \<or> t = 9"
    by auto
  then have "0 < (push_bit 28 (word_of_int t) :: 32 word)"
    by (elim disjE) simp_all
  then show ?thesis using make_hand_rank_ge [of t a b c d e] by simp
qed

lemma evaluate_five_internal_pos: "0 < evaluate_five_internal c0 c1 c2 c3 c4"
  unfolding evaluate_five_internal_def Let_def RANK_defs
  by (simp add: make_hand_rank_pos split: prod.split)

lemma evaluate_five_pos: "0 < evaluate_five five"
  by (simp add: evaluate_five_def evaluate_five_internal_pos)

subsection \<open>Lists of known length\<close>

lemma length_five_cases:
  assumes "length cs = 5"
  obtains c0 c1 c2 c3 c4 where "cs = [c0, c1, c2, c3, c4]"
  using assms by (auto simp: numeral_eq_Suc length_Suc_conv)

lemma length_seven_cases:
  assumes "length cs = 7"
  obtains c0 c1 c2 c3 c4 c5 c6 where "cs = [c0, c1, c2, c3, c4, c5, c6]"
  using assms by (auto simp: numeral_eq_Suc length_Suc_conv)

subsection \<open>The seven-card loop, unrolled\<close>

lemma keep_best_max: "keep_best five best = max best (evaluate_five five)"
  by (auto simp add: keep_best_def Let_def max_def)

lemma max_zero_word: "max (0::32 word) x = x"
  by (simp add: max_def)

lemma upt_to_7:
  "[0..<7] = [0, 1, 2, 3, 4, 5, 6::nat]"
  "[0 + 1..<7] = [1, 2, 3, 4, 5, 6::nat]"
  "[1 + 1..<7] = [2, 3, 4, 5, 6::nat]"
  "[2 + 1..<7] = [3, 4, 5, 6::nat]"
  "[3 + 1..<7] = [4, 5, 6::nat]"
  "[4 + 1..<7] = [5, 6::nat]"
  "[5 + 1..<7] = [6::nat]"
  "[6 + 1..<7] = ([]::nat list)"
  by (simp_all add: upt_rec)

lemma skip_two_seven:
  "skip_two 0 1 [c0, c1, c2, c3, c4, c5, c6] = [c2, c3, c4, c5, c6]"
  "skip_two 0 2 [c0, c1, c2, c3, c4, c5, c6] = [c1, c3, c4, c5, c6]"
  "skip_two 0 3 [c0, c1, c2, c3, c4, c5, c6] = [c1, c2, c4, c5, c6]"
  "skip_two 0 4 [c0, c1, c2, c3, c4, c5, c6] = [c1, c2, c3, c5, c6]"
  "skip_two 0 5 [c0, c1, c2, c3, c4, c5, c6] = [c1, c2, c3, c4, c6]"
  "skip_two 0 6 [c0, c1, c2, c3, c4, c5, c6] = [c1, c2, c3, c4, c5]"
  "skip_two 1 2 [c0, c1, c2, c3, c4, c5, c6] = [c0, c3, c4, c5, c6]"
  "skip_two 1 3 [c0, c1, c2, c3, c4, c5, c6] = [c0, c2, c4, c5, c6]"
  "skip_two 1 4 [c0, c1, c2, c3, c4, c5, c6] = [c0, c2, c3, c5, c6]"
  "skip_two 1 5 [c0, c1, c2, c3, c4, c5, c6] = [c0, c2, c3, c4, c6]"
  "skip_two 1 6 [c0, c1, c2, c3, c4, c5, c6] = [c0, c2, c3, c4, c5]"
  "skip_two 2 3 [c0, c1, c2, c3, c4, c5, c6] = [c0, c1, c4, c5, c6]"
  "skip_two 2 4 [c0, c1, c2, c3, c4, c5, c6] = [c0, c1, c3, c5, c6]"
  "skip_two 2 5 [c0, c1, c2, c3, c4, c5, c6] = [c0, c1, c3, c4, c6]"
  "skip_two 2 6 [c0, c1, c2, c3, c4, c5, c6] = [c0, c1, c3, c4, c5]"
  "skip_two 3 4 [c0, c1, c2, c3, c4, c5, c6] = [c0, c1, c2, c5, c6]"
  "skip_two 3 5 [c0, c1, c2, c3, c4, c5, c6] = [c0, c1, c2, c4, c6]"
  "skip_two 3 6 [c0, c1, c2, c3, c4, c5, c6] = [c0, c1, c2, c4, c5]"
  "skip_two 4 5 [c0, c1, c2, c3, c4, c5, c6] = [c0, c1, c2, c3, c6]"
  "skip_two 4 6 [c0, c1, c2, c3, c4, c5, c6] = [c0, c1, c2, c3, c5]"
  "skip_two 5 6 [c0, c1, c2, c3, c4, c5, c6] = [c0, c1, c2, c3, c4]"
  by (simp_all add: skip_two_def upt_rec)

lemma evaluate_seven_unrolled:
  "evaluate_seven [c0, c1, c2, c3, c4, c5, c6] =
     max (max (max (max (max (max (max (max (max (max (max (max (max (max (max (max (max (max (max (max (max (0)
       (evaluate_five [c2, c3, c4, c5, c6]))
       (evaluate_five [c1, c3, c4, c5, c6]))
       (evaluate_five [c1, c2, c4, c5, c6]))
       (evaluate_five [c1, c2, c3, c5, c6]))
       (evaluate_five [c1, c2, c3, c4, c6]))
       (evaluate_five [c1, c2, c3, c4, c5]))
       (evaluate_five [c0, c3, c4, c5, c6]))
       (evaluate_five [c0, c2, c4, c5, c6]))
       (evaluate_five [c0, c2, c3, c5, c6]))
       (evaluate_five [c0, c2, c3, c4, c6]))
       (evaluate_five [c0, c2, c3, c4, c5]))
       (evaluate_five [c0, c1, c4, c5, c6]))
       (evaluate_five [c0, c1, c3, c5, c6]))
       (evaluate_five [c0, c1, c3, c4, c6]))
       (evaluate_five [c0, c1, c3, c4, c5]))
       (evaluate_five [c0, c1, c2, c5, c6]))
       (evaluate_five [c0, c1, c2, c4, c6]))
       (evaluate_five [c0, c1, c2, c4, c5]))
       (evaluate_five [c0, c1, c2, c3, c6]))
       (evaluate_five [c0, c1, c2, c3, c5]))
       (evaluate_five [c0, c1, c2, c3, c4])"
  apply (simp only: evaluate_seven_def upt_to_7)
  apply (simp only: fold_simps keep_best_max)
  apply (simp only: upt_to_7)
  apply (simp only: fold_simps id_apply comp_apply)
  apply (simp only: skip_two_seven)
  done

lemma five_card_subsets_seven:
  "five_card_subsets [c0, c1, c2, c3, c4, c5, c6] =
     [[c0, c1, c2, c3, c4],
      [c0, c1, c2, c3, c5],
      [c0, c1, c2, c3, c6],
      [c0, c1, c2, c4, c5],
      [c0, c1, c2, c4, c6],
      [c0, c1, c2, c5, c6],
      [c0, c1, c3, c4, c5],
      [c0, c1, c3, c4, c6],
      [c0, c1, c3, c5, c6],
      [c0, c1, c4, c5, c6],
      [c0, c2, c3, c4, c5],
      [c0, c2, c3, c4, c6],
      [c0, c2, c3, c5, c6],
      [c0, c2, c4, c5, c6],
      [c0, c3, c4, c5, c6],
      [c1, c2, c3, c4, c5],
      [c1, c2, c3, c4, c6],
      [c1, c2, c3, c5, c6],
      [c1, c2, c4, c5, c6],
      [c1, c3, c4, c5, c6],
      [c2, c3, c4, c5, c6]]"
  by (simp add: five_card_subsets_def Let_def)

text \<open>On distinct cards the sublists of length five are the five-element subsets.\<close>

lemma filter_in_subseqs: "filter P xs \<in> set (subseqs xs)"
  by (induction xs) (auto simp: Let_def)

lemma five_card_subsets_sets:
  assumes "distinct cs"
  shows "set ` set (five_card_subsets cs) = {S. S \<subseteq> set cs \<and> card S = 5}"
proof (intro equalityI subsetI)
  fix S
  assume "S \<in> set ` set (five_card_subsets cs)"
  then obtain five where five: "five \<in> set (subseqs cs)" "length five = 5" "S = set five"
    by (auto simp: five_card_subsets_def)
  from five(1) have "set five \<in> Pow (set cs)"
    using subseqs_powset [of cs] by blast
  moreover from five(1) assms have "distinct five"
    by (rule subseqs_distinctD)
  then have "card (set five) = 5"
    using five(2) by (simp add: distinct_card)
  ultimately show "S \<in> {S. S \<subseteq> set cs \<and> card S = 5}"
    using five(3) by simp
next
  fix S
  assume "S \<in> {S. S \<subseteq> set cs \<and> card S = 5}"
  then have S: "S \<subseteq> set cs" "card S = 5" by simp_all
  let ?five = "filter (\<lambda>c. c \<in> S) cs"
  have set_five: "set ?five = S" using S(1) by auto
  have "distinct ?five" using assms by simp
  then have "length ?five = card (set ?five)" by (rule distinct_card [symmetric])
  with set_five S(2) have "length ?five = 5" by simp
  then have "?five \<in> set (five_card_subsets cs)"
    by (simp add: five_card_subsets_def filter_in_subseqs)
  with set_five show "S \<in> set ` set (five_card_subsets cs)"
    by (metis imageI)
qed

subsection \<open>The rank of five cards does not depend on their order\<close>

lemma sort_desc_mset: "mset xs = mset ys \<Longrightarrow> sort_desc xs = sort_desc ys"
  by (simp add: sort_desc_def properties_for_sort)

lemma evaluate_five_internal_cong:
  assumes "sort_desc [card_rank c0, card_rank c1, card_rank c2, card_rank c3, card_rank c4] =
           sort_desc [card_rank d0, card_rank d1, card_rank d2, card_rank d3, card_rank d4]"
    and "(card_suit c0 = card_suit c1 \<and> card_suit c1 = card_suit c2 \<and>
          card_suit c2 = card_suit c3 \<and> card_suit c3 = card_suit c4) =
         (card_suit d0 = card_suit d1 \<and> card_suit d1 = card_suit d2 \<and>
          card_suit d2 = card_suit d3 \<and> card_suit d3 = card_suit d4)"
  shows "evaluate_five_internal c0 c1 c2 c3 c4 = evaluate_five_internal d0 d1 d2 d3 d4"
proof -
  define body :: "int list \<Rightarrow> bool \<Rightarrow> HandRank" where
    "body ranks is_flush =
      (let (is_straight, straight_high) = straight_of ranks;
          rank_counts = rank_counts_of ranks;
          counts = counts_of rank_counts
      in if is_flush \<and> is_straight then
           make_hand_rank RANK_STRAIGHT_FLUSH straight_high 0 0 0 0
         else if counts ! 0 = 4 then
           (let (quad_rank, kicker) = scan_two rank_counts 4 1
            in make_hand_rank RANK_FOUR_OF_A_KIND quad_rank kicker 0 0 0)
         else if counts ! 0 = 3 \<and> counts ! 1 = 2 then
           (let (trip_rank, pair_rank) = scan_two rank_counts 3 2
            in make_hand_rank RANK_FULL_HOUSE trip_rank pair_rank 0 0 0)
         else if is_flush then
           make_hand_rank RANK_FLUSH (ranks ! 0) (ranks ! 1) (ranks ! 2) (ranks ! 3) (ranks ! 4)
         else if is_straight then
           make_hand_rank RANK_STRAIGHT straight_high 0 0 0 0
         else if counts ! 0 = 3 then
           (let (trip_rank, kickers) = scan_kickers rank_counts 3
            in make_hand_rank RANK_THREE_OF_A_KIND trip_rank
                 (kicker_at kickers 0) (kicker_at kickers 1) 0 0)
         else if counts ! 0 = 2 \<and> counts ! 1 = 2 then
           (let (pairs, kicker) = scan_pairs rank_counts
            in make_hand_rank RANK_TWO_PAIR (pairs ! 0) (pairs ! 1) kicker 0 0)
         else if counts ! 0 = 2 then
           (let (pair_rank, kickers) = scan_kickers rank_counts 2
            in make_hand_rank RANK_ONE_PAIR pair_rank
                 (kicker_at kickers 0) (kicker_at kickers 1) (kicker_at kickers 2) 0)
         else
           make_hand_rank RANK_HIGH_CARD (ranks ! 0) (ranks ! 1) (ranks ! 2) (ranks ! 3) (ranks ! 4))"
    for ranks is_flush
  have unfolded: "evaluate_five_internal e0 e1 e2 e3 e4 =
      body (sort_desc [card_rank e0, card_rank e1, card_rank e2, card_rank e3, card_rank e4])
           ([card_suit e0, card_suit e1, card_suit e2, card_suit e3, card_suit e4] ! 0 =
              [card_suit e0, card_suit e1, card_suit e2, card_suit e3, card_suit e4] ! 1 \<and>
            [card_suit e0, card_suit e1, card_suit e2, card_suit e3, card_suit e4] ! 1 =
              [card_suit e0, card_suit e1, card_suit e2, card_suit e3, card_suit e4] ! 2 \<and>
            [card_suit e0, card_suit e1, card_suit e2, card_suit e3, card_suit e4] ! 2 =
              [card_suit e0, card_suit e1, card_suit e2, card_suit e3, card_suit e4] ! 3 \<and>
            [card_suit e0, card_suit e1, card_suit e2, card_suit e3, card_suit e4] ! 3 =
              [card_suit e0, card_suit e1, card_suit e2, card_suit e3, card_suit e4] ! 4)"
    for e0 e1 e2 e3 e4
    unfolding evaluate_five_internal_def body_def Let_def by (rule refl)
  have nth: "([s0, s1, s2, s3, s4] ! 0 = [s0, s1, s2, s3, s4] ! 1 \<and>
              [s0, s1, s2, s3, s4] ! 1 = [s0, s1, s2, s3, s4] ! 2 \<and>
              [s0, s1, s2, s3, s4] ! 2 = [s0, s1, s2, s3, s4] ! 3 \<and>
              [s0, s1, s2, s3, s4] ! 3 = [s0, s1, s2, s3, s4] ! 4) =
             (s0 = s1 \<and> s1 = s2 \<and> s2 = s3 \<and> s3 = s4)" for s0 s1 s2 s3 s4 :: int
    by simp
  show ?thesis unfolding unfolded nth assms ..
qed

lemma all_same_suit_iff:
  "(card_suit c0 = card_suit c1 \<and> card_suit c1 = card_suit c2 \<and>
    card_suit c2 = card_suit c3 \<and> card_suit c3 = card_suit c4) \<longleftrightarrow>
   (\<forall>c \<in> set [c0, c1, c2, c3, c4]. \<forall>d \<in> set [c0, c1, c2, c3, c4]. card_suit c = card_suit d)"
  by auto

lemma evaluate_five_permutation:
  assumes "mset xs = mset ys" and "length xs = 5"
  shows "evaluate_five xs = evaluate_five ys"
proof -
  from assms have "length ys = 5" by (metis size_mset)
  then obtain d0 d1 d2 d3 d4 where ys: "ys = [d0, d1, d2, d3, d4]" by (rule length_five_cases)
  from assms(2) obtain c0 c1 c2 c3 c4 where xs: "xs = [c0, c1, c2, c3, c4]"
    by (rule length_five_cases)
  have "mset (map card_rank xs) = mset (map card_rank ys)" using assms(1) by simp
  then have "sort_desc (map card_rank xs) = sort_desc (map card_rank ys)"
    by (rule sort_desc_mset)
  then have r: "sort_desc [card_rank c0, card_rank c1, card_rank c2, card_rank c3, card_rank c4] =
           sort_desc [card_rank d0, card_rank d1, card_rank d2, card_rank d3, card_rank d4]"
    unfolding xs ys list.map .
  have "set xs = set ys" using assms(1) by (rule mset_eq_setD)
  then have s: "set [c0, c1, c2, c3, c4] = set [d0, d1, d2, d3, d4]"
    unfolding xs ys .
  have f: "(card_suit c0 = card_suit c1 \<and> card_suit c1 = card_suit c2 \<and>
          card_suit c2 = card_suit c3 \<and> card_suit c3 = card_suit c4) =
         (card_suit d0 = card_suit d1 \<and> card_suit d1 = card_suit d2 \<and>
          card_suit d2 = card_suit d3 \<and> card_suit d3 = card_suit d4)"
    unfolding all_same_suit_iff s ..
  have "evaluate_five_internal c0 c1 c2 c3 c4 = evaluate_five_internal d0 d1 d2 d3 d4"
    using r f by (rule evaluate_five_internal_cong)
  then show ?thesis
    unfolding xs ys evaluate_five_def by simp
qed

lemma evaluate_five_le_seven:
  assumes "length cs = 7" and "distinct cs"
    and "distinct five" and "length five = 5" and "set five \<subseteq> set cs"
  shows "\<exists>sub \<in> set (five_card_subsets cs). evaluate_five five = evaluate_five sub"
proof -
  let ?sub = "filter (\<lambda>c. c \<in> set five) cs"
  have "set ?sub = set five" using assms(5) by auto
  moreover have "distinct ?sub" using assms(2) by simp
  ultimately have m: "mset ?sub = mset five"
    using assms(3) by (metis set_eq_iff_mset_eq_distinct)
  then have "length ?sub = 5" using assms(4) by (metis size_mset)
  then have "?sub \<in> set (five_card_subsets cs)"
    by (simp add: five_card_subsets_def filter_in_subseqs)
  moreover have "evaluate_five five = evaluate_five ?sub"
    using m assms(4) by (intro evaluate_five_permutation) simp_all
  ultimately show ?thesis by blast
qed

text \<open>
  C1. For every array of seven distinct cards, \<open>evaluate_seven\<close> returns the maximum
  of \<open>evaluate_five\<close> over the five-card subsets of the seven cards: the subsets are
  the 21 sublists of length five (each subset once, in the order of the array), the
  result of the double loop is the greatest of their 21 ranks, and five distinct cards
  out of the seven, in any order, never rank above it.
\<close>

theorem evaluate_seven_is_max:
  assumes "length cs = 7" and "distinct cs"
  shows "set ` set (five_card_subsets cs) = {S. S \<subseteq> set cs \<and> card S = 5} \<and>
         length (five_card_subsets cs) = 21 \<and>
         evaluate_seven cs = Max (set (map evaluate_five (five_card_subsets cs))) \<and>
         (\<forall>five. distinct five \<and> length five = 5 \<and> set five \<subseteq> set cs \<longrightarrow>
            evaluate_five five \<le> evaluate_seven cs)"
proof -
  from assms(1) obtain c0 c1 c2 c3 c4 c5 c6 where cs_eq: "cs = [c0, c1, c2, c3, c4, c5, c6]"
    by (rule length_seven_cases)
  have n: "length (five_card_subsets cs) = 21"
    unfolding cs_eq five_card_subsets_seven by simp
  have m: "Max (set (map evaluate_five (five_card_subsets cs))) = evaluate_seven cs"
    unfolding cs_eq five_card_subsets_seven evaluate_seven_unrolled list.map
      Max.set_eq_fold fold_simps id_apply comp_apply max_zero_word
    by (simp only: max.assoc max.commute max.left_commute)
  have "evaluate_five five \<le> evaluate_seven cs"
    if "distinct five" "length five = 5" "set five \<subseteq> set cs" for five
  proof -
    from evaluate_five_le_seven [OF assms that]
    obtain sub where "sub \<in> set (five_card_subsets cs)" "evaluate_five five = evaluate_five sub"
      by blast
    then have "evaluate_five five \<in> set (map evaluate_five (five_card_subsets cs))"
      by simp
    then have "evaluate_five five \<le> Max (set (map evaluate_five (five_card_subsets cs)))"
      by (intro Max_ge) simp_all
    with m show ?thesis by simp
  qed
  with n m five_card_subsets_sets [OF assms(2)] show ?thesis by simp
qed

theorem evaluate_seven_is_max_witness:
  "length [48, 1, 4, 8, 12, 16, 3::nat] = 7 \<and> distinct [48, 1, 4, 8, 12, 16, 3::nat] \<and>
   evaluate_seven [48, 1, 4, 8, 12, 16, 3] =
     Max (set (map evaluate_five (five_card_subsets [48, 1, 4, 8, 12, 16, 3]))) \<and>
   evaluate_five [12, 8, 4, 1, 48] \<le> evaluate_seven [48, 1, 4, 8, 12, 16, 3]"
proof -
  have l: "length [48, 1, 4, 8, 12, 16, 3::nat] = 7" and d: "distinct [48, 1, 4, 8, 12, 16, 3::nat]"
    by simp_all
  have f: "distinct [12, 8, 4, 1, 48::nat] \<and> length [12, 8, 4, 1, 48::nat] = 5 \<and>
           set [12, 8, 4, 1, 48::nat] \<subseteq> set [48, 1, 4, 8, 12, 16, 3]"
    by simp
  from evaluate_seven_is_max [OF l d] f l d show ?thesis by blast
qed

subsection \<open>The wheel\<close>

lemma sort_desc_of_mset:
  assumes "mset xs = mset ys" "sorted ys"
  shows "sort_desc xs = rev ys"
proof -
  have "sort xs = ys" using assms by (simp add: properties_for_sort)
  then show ?thesis by (simp add: sort_desc_def)
qed

lemma rank_counts_of_wheel:
  "rank_counts_of [12, 3, 2, 1, 0] = [1, 1, 1, 1, 0, 0, 0, 0, 0, 0, 0, 0, 1]"
  by (simp add: rank_counts_of_def numeral_eq_Suc)

lemma rank_counts_of_six_high:
  "rank_counts_of [4, 3, 2, 1, 0] = [1, 1, 1, 1, 1, 0, 0, 0, 0, 0, 0, 0, 0]"
  by (simp add: rank_counts_of_def numeral_eq_Suc)

lemma counts_of_five_singles:
  "counts_of [1, 1, 1, 1, 0, 0, 0, 0, 0, 0, 0, 0, 1] = [1, 1, 1, 1, 1]"
  "counts_of [1, 1, 1, 1, 1, 0, 0, 0, 0, 0, 0, 0, 0] = [1, 1, 1, 1, 1]"
  by (simp_all add: counts_of_def sort_desc_def)

lemma straight_of_low:
  "straight_of [12, 3, 2, 1, 0] = (True, 3)"
  "straight_of [4, 3, 2, 1, 0] = (True, 4)"
  by (simp_all add: straight_of_def)

lemma wheel_value:
  assumes "mset (map card_rank cs) = {#12, 0, 1, 2, 3#}"
    and "\<exists>c \<in> set cs. \<exists>d \<in> set cs. card_suit c \<noteq> card_suit d"
  shows "evaluate_five cs = make_hand_rank RANK_STRAIGHT 3 0 0 0 0"
proof -
  from assms(1) have "size (mset (map card_rank cs)) = 5" by simp
  then have "length cs = 5" by simp
  then obtain c0 c1 c2 c3 c4 where cs_eq: "cs = [c0, c1, c2, c3, c4]"
    by (rule length_five_cases)
  have "mset [card_rank c0, card_rank c1, card_rank c2, card_rank c3, card_rank c4] =
        mset [0, 1, 2, 3, 12]"
    using assms(1) unfolding cs_eq by (simp add: ac_simps)
  then have ranks:
    "sort_desc [card_rank c0, card_rank c1, card_rank c2, card_rank c3, card_rank c4] =
     [12, 3, 2, 1, 0]"
    using sort_desc_of_mset [of _ "[0, 1, 2, 3, 12]"] by simp
  have "\<not> (card_suit c0 = card_suit c1 \<and> card_suit c1 = card_suit c2 \<and>
           card_suit c2 = card_suit c3 \<and> card_suit c3 = card_suit c4)"
    using assms(2) unfolding cs_eq by auto
  then show ?thesis
    unfolding cs_eq evaluate_five_def evaluate_five_internal_def
    by (auto simp add: ranks rank_counts_of_wheel counts_of_five_singles straight_of_low Let_def)
qed

lemma six_high_value:
  assumes "mset (map card_rank cs) = {#0, 1, 2, 3, 4#}"
  shows "evaluate_five cs = make_hand_rank RANK_STRAIGHT 4 0 0 0 0 \<or>
         evaluate_five cs = make_hand_rank RANK_STRAIGHT_FLUSH 4 0 0 0 0"
proof -
  from assms(1) have "size (mset (map card_rank cs)) = 5" by simp
  then have "length cs = 5" by simp
  then obtain c0 c1 c2 c3 c4 where cs_eq: "cs = [c0, c1, c2, c3, c4]"
    by (rule length_five_cases)
  have "mset [card_rank c0, card_rank c1, card_rank c2, card_rank c3, card_rank c4] =
        mset [0, 1, 2, 3, 4]"
    using assms(1) unfolding cs_eq by (simp add: ac_simps)
  then have ranks:
    "sort_desc [card_rank c0, card_rank c1, card_rank c2, card_rank c3, card_rank c4] =
     [4, 3, 2, 1, 0]"
    using sort_desc_of_mset [of _ "[0, 1, 2, 3, 4]"] by simp
  show ?thesis
    unfolding cs_eq evaluate_five_def evaluate_five_internal_def
    by (simp add: ranks rank_counts_of_six_high counts_of_five_singles straight_of_low Let_def)
qed

lemma low_straight_values:
  "make_hand_rank RANK_STRAIGHT 3 0 0 0 0 < make_hand_rank RANK_STRAIGHT 4 0 0 0 0"
  "make_hand_rank RANK_STRAIGHT 3 0 0 0 0 < make_hand_rank RANK_STRAIGHT_FLUSH 4 0 0 0 0"
  "get_rank_type (make_hand_rank RANK_STRAIGHT 3 0 0 0 0) = RANK_STRAIGHT"
  "drop_bit 20 (make_hand_rank RANK_STRAIGHT 3 0 0 0 0) AND 15 = 3"
  by (simp_all add: make_hand_rank_def RANK_defs get_rank_type_def)

text \<open>
  C7. Five cards of ranks A, 2, 3, 4, 5 (rank indices 12, 0, 1, 2, 3) that are not all
  of one suit evaluate to the straight category with the single tiebreaker 3, the rank
  index that \<open>card_to_string\<close> prints as 5; and that hand rank is strictly below the
  rank of any five cards of ranks 2, 3, 4, 5, 6 (rank indices 0 to 4).
\<close>

theorem wheel_is_five_high_straight:
  assumes "mset (map card_rank wheel) = {#12, 0, 1, 2, 3#}"
    and "\<exists>c \<in> set wheel. \<exists>d \<in> set wheel. card_suit c \<noteq> card_suit d"
    and "mset (map card_rank six_high) = {#0, 1, 2, 3, 4#}"
  shows "evaluate_five wheel = make_hand_rank RANK_STRAIGHT 3 0 0 0 0 \<and>
         get_rank_type (evaluate_five wheel) = RANK_STRAIGHT \<and>
         drop_bit 20 (evaluate_five wheel) AND 15 = 3 \<and>
         card_to_string (make_card 3 0) = ''5c'' \<and>
         evaluate_five wheel < evaluate_five six_high"
proof -
  have w: "evaluate_five wheel = make_hand_rank RANK_STRAIGHT 3 0 0 0 0"
    using assms(1,2) by (rule wheel_value)
  have "evaluate_five wheel < evaluate_five six_high"
    using six_high_value [OF assms(3)] w low_straight_values(1,2) by auto
  moreover have "card_to_string (make_card 3 0) = ''5c''"
    by (simp add: card_to_string_def make_card_def card_rank_def card_suit_def)
  ultimately show ?thesis
    using w low_straight_values(3,4) by simp
qed

theorem wheel_is_five_high_straight_witness:
  "mset (map card_rank [48, 1, 4, 8, 12]) = {#12, 0, 1, 2, 3#} \<and>
   (\<exists>c \<in> set [48, 1, 4, 8, 12]. \<exists>d \<in> set [48, 1, 4, 8, 12]. card_suit c \<noteq> card_suit d) \<and>
   mset (map card_rank [0, 5, 8, 12, 16]) = {#0, 1, 2, 3, 4#} \<and>
   get_rank_type (evaluate_five [48, 1, 4, 8, 12]) = RANK_STRAIGHT \<and>
   evaluate_five [48, 1, 4, 8, 12] < evaluate_five [0, 5, 8, 12, 16]"
proof -
  have h1: "mset (map card_rank [48, 1, 4, 8, 12]) = {#12, 0, 1, 2, 3#}"
    by (simp add: card_rank_def)
  have h2: "\<exists>c \<in> set [48, 1, 4, 8, 12]. \<exists>d \<in> set [48, 1, 4, 8, 12]. card_suit c \<noteq> card_suit d"
    by (rule bexI [of _ 48], rule bexI [of _ 1]) (simp_all add: card_suit_def)
  have h3: "mset (map card_rank [0, 5, 8, 12, 16]) = {#0, 1, 2, 3, 4#}"
    by (simp add: card_rank_def)
  show ?thesis
    using wheel_is_five_high_straight [OF h1 h2 h3] h1 h2 h3 by blast
qed

subsection \<open>Fewer than five cards\<close>

text \<open>
  C9. When the board size is below 3, so that hole cards and board are fewer than five
  cards, \<open>evaluate\<close> returns the hand rank 0: its category is 0 and it is strictly
  below the rank of every five-card hand.
\<close>

theorem evaluate_too_few_cards:
  assumes "board_size < 3"
  shows "evaluate hole brd board_size = 0 \<and>
         get_rank_type (evaluate hole brd board_size) = 0 \<and>
         (\<forall>five. evaluate hole brd board_size < evaluate_five five)"
  using assms by (simp add: evaluate_def Let_def get_rank_type_def evaluate_five_pos)

theorem evaluate_too_few_cards_witness:
  "(2::int) < 3 \<and> evaluate [48, 49] [0, 4, 255, 255, 255] 2 = 0"
  using evaluate_too_few_cards [of 2 "[48, 49]" "[0, 4, 255, 255, 255]"] by simp

section \<open>Properties of the arena\<close>

lemma mmap_index_past_capacity:
  "buf_max_elements buf \<le> index \<Longrightarrow>
   mmap_index buf index =
     (buf_data buf 0, [FATAL_access_out_of_bounds index (buf_max_elements buf)], buf)"
  by (simp add: mmap_index_def)

text \<open>
  C4, as stated, fails: on the buffer of capacity 4 and logical length 1, the access at
  index 2, past the logical end, returns the cell (30), prints nothing, and only moves
  the logical end to 3; the \<^verbatim>\<open>const\<close> access returns the cell as well.
\<close>

theorem mmap_index_beyond_logical_end_counterexample:
  "buf_count example_buffer \<le> 2 \<and>
   mmap_index example_buffer 2 = (30, [], example_buffer\<lparr>buf_count := 3\<rparr>) \<and>
   mmap_index_const example_buffer 2 = (30, [])"
  by (simp add: mmap_index_def mmap_index_const_def example_buffer_def)

text \<open>
  C4, amended. An indexed access at or past the logical end and below the capacity is
  not an error: it returns the cell at the index and prints nothing; the mutable
  accessor moves the logical end to the index plus one, the \<^verbatim>\<open>const\<close> accessor leaves
  the buffer as it is.
\<close>

theorem mmap_index_beyond_logical_end:
  assumes "buf_count buf \<le> index" and "index < buf_max_elements buf"
  shows "mmap_index buf index = (buf_data buf index, [], buf\<lparr>buf_count := index + 1\<rparr>) \<and>
         mmap_index_const buf index = (buf_data buf index, [])"
  using assms by (simp add: mmap_index_def mmap_index_const_def)

theorem mmap_index_beyond_logical_end_witness:
  "buf_count example_buffer \<le> 3 \<and> 3 < buf_max_elements example_buffer \<and>
   mmap_index example_buffer 3 = (40, [], example_buffer\<lparr>buf_count := 4\<rparr>)"
  using mmap_index_beyond_logical_end [of example_buffer 3]
  by (simp add: example_buffer_def)

section \<open>Properties of the engine\<close>

subsection \<open>Node data of an invalid id\<close>

lemma size_t_of_int_nonneg: "0 \<le> i \<Longrightarrow> i < 2 ^ 31 \<Longrightarrow> size_t_of_int i = nat i"
  by (simp add: size_t_of_int_def)

text \<open>
  C10. For a node id (a 32-bit \<^verbatim>\<open>int\<close>) that is negative or not below the number of
  nodes of the pool, \<open>get_node_data\<close> returns the empty map and the engine unchanged;
  it prints one line and does nothing else.
\<close>

theorem get_node_data_invalid_id:
  assumes "- (2 ^ 31) \<le> node_id'" and "node_id' < 2 ^ 31"
    and "pool e = Some p"
    and "node_id' < 0 \<or> int (mmap_size (nodes p)) \<le> node_id'"
  shows "get_node_data e node_id' = (Map.empty, [ERROR_get_node_data_invalid_id node_id'], e)"
proof (cases "node_id' < 0")
  case True
  then show ?thesis using assms(3) by (simp add: get_node_data_def)
next
  case False
  with assms(2) have "size_t_of_int node_id' = nat node_id'"
    by (simp add: size_t_of_int_nonneg)
  with False assms(4) have "mmap_size (nodes p) \<le> size_t_of_int node_id'" by simp
  then show ?thesis using assms(3) by (simp add: get_node_data_def)
qed

theorem get_node_data_invalid_id_witness:
  "get_node_data three_action_engine 1 =
     (Map.empty, [ERROR_get_node_data_invalid_id 1], three_action_engine) \<and>
   get_node_data three_action_engine (- 1) =
     (Map.empty, [ERROR_get_node_data_invalid_id (- 1)], three_action_engine)"
proof -
  have p: "pool three_action_engine = Some (pool_of_nodes [zero_node\<lparr>action_count := 3\<rparr>])"
    by (simp add: three_action_engine_def)
  have s: "mmap_size (nodes (pool_of_nodes [zero_node\<lparr>action_count := 3\<rparr>])) = 1"
    by (simp add: pool_of_nodes_def mmap_size_def)
  show ?thesis
    using get_node_data_invalid_id [of 1 three_action_engine, OF _ _ p]
          get_node_data_invalid_id [of "- 1" three_action_engine, OF _ _ p]
    by (simp add: s)
qed

subsection \<open>Regret matching\<close>

lemma positive_regrets_prefix:
  assumes "j \<le> k"
  shows "fold (\<lambda>a (strategy, sum).
             let strategy = strategy[a := max 0 (r ! a)]
             in (strategy, sum + strategy ! a))
          [0..<j] (replicate k 0, 0) =
         (map (\<lambda>a. max 0 (r ! a)) [0..<j] @ replicate (k - j) 0,
          sum_list (map (\<lambda>a. max 0 (r ! a)) [0..<j]))"
  using assms
proof (induction j)
  case 0
  then show ?case by simp
next
  case (Suc j)
  then have j: "j < k" by simp
  have upd: "(map (\<lambda>a. max 0 (r ! a)) [0..<j] @ replicate (k - j) 0)[j := v] =
             map (\<lambda>a. max 0 (r ! a)) [0..<j] @ v # replicate (k - Suc j) 0" for v
  proof -
    from j have "k - j = Suc (k - Suc j)" by simp
    then show ?thesis by (simp add: list_update_append)
  qed
  have nth: "(map (\<lambda>a. max 0 (r ! a)) [0..<j] @ v # replicate (k - Suc j) 0) ! j = v" for v
    by (simp add: nth_append)
  from Suc j show ?case
    by (simp add: Let_def upd nth del: replicate.simps)
qed

lemma positive_regrets_eq:
  assumes "k \<le> length r"
  shows "positive_regrets r k = (map (max 0) (take k r), sum_list (map (max 0) (take k r)))"
proof -
  have "map (\<lambda>a. max 0 (r ! a)) [0..<k] = map (max 0) (take k r)"
    using assms by (simp add: list_eq_iff_nth_eq)
  then show ?thesis
    using positive_regrets_prefix [of k k r] by (simp add: positive_regrets_def)
qed

lemma get_current_strategy_eq:
  assumes "0 \<le> node_id'" and "node_id' < int (length (node_regrets e))"
    and "regrets (node_regrets e ! nat node_id') combo_idx = Some r"
    and "action_count (node_at e node_id') \<le> length r"
    and "k = action_count (node_at e node_id')"
    and "rp = map (max 0) (take k r)"
  shows "get_current_strategy e node_id' player' combo_idx iteration =
           (if sum_list rp > 0 then map (\<lambda>x. x / sum_list rp) rp else replicate k (1 / real k))"
  using assms by (simp add: get_current_strategy_def Let_def positive_regrets_eq)

lemma get_current_strategy_no_entry:
  assumes "regrets (node_regrets e ! nat node_id') combo_idx = None"
  shows "get_current_strategy e node_id' player' combo_idx iteration =
           replicate (action_count (node_at e node_id')) (1 / real (action_count (node_at e node_id')))"
  using assms by (simp add: get_current_strategy_def Let_def)

lemma three_action_node: "node_at three_action_engine 0 = zero_node\<lparr>action_count := 3\<rparr>"
  by (simp add: node_at_def three_action_engine_def pool_of_nodes_def mmap_index_def
      size_t_of_int_def new_pool_def new_buffer_def)

lemma three_action_regrets:
  "node_regrets three_action_engine =
     [\<lparr>regrets = [0 \<mapsto> [3, - 1, 2]], cumulative_strategy = [0 \<mapsto> [2, 0, 1]]\<rparr>]"
  by (simp add: three_action_engine_def)

lemma three_action_strategy:
  "get_current_strategy three_action_engine 0 0 0 1 = [3 / 5, 0, 2 / 5]"
proof -
  have "get_current_strategy three_action_engine 0 0 0 1 =
        (if sum_list [3, 0, 2::real] > 0 then map (\<lambda>x. x / sum_list [3, 0, 2]) [3, 0, 2]
         else replicate 3 (1 / real 3))"
    by (rule get_current_strategy_eq [where r = "[3, - 1, 2]"])
       (simp_all add: three_action_regrets three_action_node)
  then show ?thesis by simp
qed

lemma get_current_strategy_cases:
  assumes "0 \<le> node_id'"
    and "k = action_count (node_at e node_id')"
    and "entry = (if node_id' < int (length (node_regrets e))
                  then regrets (node_regrets e ! nat node_id') combo_idx else None)"
    and "\<forall>r. entry = Some r \<longrightarrow> k \<le> length r"
    and "rp = (case entry of Some r \<Rightarrow> map (max 0) (take k r) | None \<Rightarrow> replicate k 0)"
  shows "get_current_strategy e node_id' player' combo_idx iteration =
           (if sum_list rp > 0 then map (\<lambda>x. x / sum_list rp) rp else replicate k (1 / real k))"
proof (cases entry)
  case None
  then have rp: "rp = replicate k 0" using assms(5) by simp
  have "get_current_strategy e node_id' player' combo_idx iteration = replicate k (1 / real k)"
    using None assms(2,3) by (auto simp: get_current_strategy_def Let_def split: if_splits)
  then show ?thesis by (simp add: rp sum_list_replicate)
next
  case (Some r)
  then have in_store: "node_id' < int (length (node_regrets e))"
    and r: "regrets (node_regrets e ! nat node_id') combo_idx = Some r"
    using assms(3) by (auto split: if_splits)
  from Some assms(4) have len: "k \<le> length r" by simp
  from Some assms(5) have rp: "rp = map (max 0) (take k r)" by simp
  show ?thesis
    using in_store r len assms(2) rp
    by (simp add: get_current_strategy_def Let_def positive_regrets_eq)
qed

lemma sum_list_divide_const: "sum_list (map (\<lambda>x. x / s) xs) = sum_list xs / (s::real)"
  by (induction xs) (simp_all add: add_divide_distrib)

lemma three_action_no_entry:
  "get_current_strategy three_action_engine 0 0 1 1 = [1 / 3, 1 / 3, 1 / 3]"
proof -
  have "get_current_strategy three_action_engine 0 0 1 1 =
        (if sum_list (replicate 3 (0::real)) > 0
         then map (\<lambda>x. x / sum_list (replicate 3 (0::real))) (replicate 3 0)
         else replicate 3 (1 / real 3))"
    by (rule get_current_strategy_cases [where entry = None])
       (simp_all add: three_action_regrets three_action_node)
  then show ?thesis by (simp add: numeral_eq_Suc)
qed

text \<open>
  C6. At a node with \<open>k\<close> actions the current strategy for a (node, combo) pair has
  \<open>k\<close> entries. With \<open>rp\<close> the positive parts \<open>max 0 (r ! a)\<close> of the regret
  vector \<open>r\<close> of the pair (all zero when the pair has no regret vector yet, or the
  node is outside the regret store), the entry of every action \<open>a\<close> is \<open>rp ! a\<close>
  divided by the sum of \<open>rp\<close> when that sum is positive, and \<open>1 / k\<close> otherwise; so
  a pair without regrets gets the uniform strategy, and a strategy with a positive sum of
  regrets adds up to 1. For the regrets (3, -1, 2) over three actions the strategy is
  (3/5, 0, 2/5), that is (0.6, 0.0, 0.4).
\<close>

theorem current_strategy_regret_matching:
  assumes "0 \<le> node_id'"
    and "k = action_count (node_at e node_id')"
    and "entry = (if node_id' < int (length (node_regrets e))
                  then regrets (node_regrets e ! nat node_id') combo_idx else None)"
    and "\<forall>r. entry = Some r \<longrightarrow> k \<le> length r"
    and "rp = (case entry of Some r \<Rightarrow> map (max 0) (take k r) | None \<Rightarrow> replicate k 0)"
    and "strategy = get_current_strategy e node_id' player' combo_idx iteration"
  shows "strategy =
           (if sum_list rp > 0 then map (\<lambda>x. x / sum_list rp) rp else replicate k (1 / real k)) \<and>
         length strategy = k \<and>
         (\<forall>a < k. strategy ! a = (if sum_list rp > 0 then rp ! a / sum_list rp else 1 / real k)) \<and>
         (\<forall>r. entry = Some r \<longrightarrow> (\<forall>a < k. rp ! a = max 0 (r ! a))) \<and>
         (entry = None \<longrightarrow> strategy = replicate k (1 / real k)) \<and>
         (sum_list rp > 0 \<longrightarrow> sum_list strategy = 1) \<and>
         get_current_strategy three_action_engine 0 0 0 1 = [3 / 5, 0, 2 / 5] \<and>
         get_current_strategy three_action_engine 0 0 1 1 = [1 / 3, 1 / 3, 1 / 3]"
proof -
  have s: "strategy =
           (if sum_list rp > 0 then map (\<lambda>x. x / sum_list rp) rp else replicate k (1 / real k))"
    unfolding assms(6) using assms(1-5) by (rule get_current_strategy_cases)
  have lrp: "length rp = k"
    using assms(4,5) by (cases entry) simp_all
  have l: "length strategy = k"
    unfolding s using lrp by simp
  have nth: "\<forall>a < k. strategy ! a = (if sum_list rp > 0 then rp ! a / sum_list rp else 1 / real k)"
    unfolding s using lrp by simp
  have pos: "\<forall>r. entry = Some r \<longrightarrow> (\<forall>a < k. rp ! a = max 0 (r ! a))"
    using assms(4,5) by auto
  have none: "entry = None \<longrightarrow> strategy = replicate k (1 / real k)"
    unfolding s using assms(5) by (simp add: sum_list_replicate)
  have one: "sum_list rp > 0 \<longrightarrow> sum_list strategy = 1"
    unfolding s by (simp add: sum_list_divide_const)
  from s l nth pos none one three_action_strategy three_action_no_entry
  show ?thesis by blast
qed

theorem current_strategy_regret_matching_witness:
  "get_current_strategy three_action_engine 0 0 0 1 =
     (if sum_list [3, 0, 2::real] > 0 then map (\<lambda>x. x / sum_list [3, 0, 2]) [3, 0, 2]
      else replicate 3 (1 / real 3)) \<and>
   sum_list (get_current_strategy three_action_engine 0 0 0 1) = 1 \<and>
   get_current_strategy three_action_engine 0 0 1 1 = replicate 3 (1 / real 3) \<and>
   get_current_strategy three_action_engine 7 0 0 1 =
     replicate (action_count (node_at three_action_engine 7))
       (1 / real (action_count (node_at three_action_engine 7)))"
proof -
  have k: "3 = action_count (node_at three_action_engine 0)"
    by (simp add: three_action_node)
  have e0: "Some [3, - 1, 2] =
      (if 0 < int (length (node_regrets three_action_engine))
       then regrets (node_regrets three_action_engine ! nat 0) 0 else None)"
    by (simp add: three_action_regrets)
  have e1: "None =
      (if 0 < int (length (node_regrets three_action_engine))
       then regrets (node_regrets three_action_engine ! nat 0) 1 else None)"
    by (simp add: three_action_regrets)
  have e7: "None =
      (if 7 < int (length (node_regrets three_action_engine))
       then regrets (node_regrets three_action_engine ! nat 7) 0 else None)"
    by (simp add: three_action_regrets)
  have a: "get_current_strategy three_action_engine 0 0 0 1 =
     (if sum_list [3, 0, 2::real] > 0 then map (\<lambda>x. x / sum_list [3, 0, 2]) [3, 0, 2]
      else replicate 3 (1 / real 3)) \<and>
     sum_list (get_current_strategy three_action_engine 0 0 0 1) = 1"
    using current_strategy_regret_matching [OF order_refl k e0 _ _ refl, of "[3, 0, 2]" 0 1]
    by simp
  have b: "get_current_strategy three_action_engine 0 0 1 1 = replicate 3 (1 / real 3)"
    using current_strategy_regret_matching [OF order_refl k e1 _ _ refl, of "replicate 3 0" 0 1]
    by (simp add: sum_list_replicate)
  have c: "get_current_strategy three_action_engine 7 0 0 1 =
     replicate (action_count (node_at three_action_engine 7))
       (1 / real (action_count (node_at three_action_engine 7)))"
    using current_strategy_regret_matching [OF _ refl e7 _ refl refl, of 0 1]
    by (simp add: sum_list_replicate)
  from a b c show ?thesis by blast
qed

subsection \<open>Discounting\<close>

lemma apply_discount_regrets:
  assumes "n < length (node_regrets e)"
  shows "regrets (node_regrets (apply_discount e t) ! n) c =
           map_option (map (discount_regret (real_of_int t powr alpha (config e) /
                (real_of_int t powr alpha (config e) + 1)))) (regrets (node_regrets e ! n) c)"
    and "cumulative_strategy (node_regrets (apply_discount e t) ! n) c =
           map_option (map (\<lambda>val. val * (real_of_int t powr gamma (config e) /
                (real_of_int t powr gamma (config e) + 1)))) (cumulative_strategy (node_regrets e ! n) c)"
  using assms by (simp_all add: apply_discount_def Let_def)

lemma discount_regret_cases:
  "discount_regret d = (\<lambda>v. if 0 < v then v * d else if v < 0 then v * (1 / 2) else 0)"
  by (auto simp: discount_regret_def fun_eq_iff)

lemma solve_iteration_no_callback:
  "solve_iteration run None iterations t e =
     (if t mod 2 = 0 then apply_discount (run t e) t else run t e)"
  by (simp add: solve_iteration_def)

lemma solve_two_iterations:
  assumes "\<And>t x. should_stop (run t x) = should_stop x"
  shows "solve run None 2 e =
     apply_discount
       (run 2 (run 1 (e\<lparr>max_iterations := 2, iteration_regrets := [], should_stop := False\<rparr>))) 2"
proof -
  let ?e0 = "e\<lparr>max_iterations := 2, iteration_regrets := [], should_stop := False\<rparr>"
  have s1: "solve_iteration run None 2 1 ?e0 = run 1 ?e0"
    by (simp add: solve_iteration_def)
  have s2: "solve_iteration run None 2 2 x = apply_discount (run 2 x) 2" for x
    by (simp add: solve_iteration_def)
  have ns1: "\<not> should_stop (run 1 ?e0)" using assms by simp
  have L3: "solve_loop run None 2 3 x = x" for x
    by (subst solve_loop.simps) simp
  have L2: "solve_loop run None 2 2 x = apply_discount (run 2 x) 2" if "\<not> should_stop x" for x
    using that by (subst solve_loop.simps) (simp add: s2 L3)
  have L1: "solve_loop run None 2 1 ?e0 = apply_discount (run 2 (run 1 ?e0)) 2"
    by (subst solve_loop.simps) (simp add: s1 L2 ns1)
  then show ?thesis by (simp add: solve_def)
qed

lemma solve_iteration_spec:
  "solve_iteration run cb iterations t e =
     spec_report_progress cb iterations t
       (if even t then apply_discount (run t e) t else run t e)"
  by (simp add: solve_iteration_def spec_report_progress_def Let_def even_iff_mod_2_eq_zero)

lemma solve_loop_spec:
  "solve_loop run cb iterations t e = spec_solve_steps run cb iterations [t..iterations] e"
proof (induction run cb iterations t e rule: solve_loop.induct)
  case (1 run cb iterations t e)
  show ?case
  proof (cases "t \<le> iterations")
    case False
    then have "[t..iterations] = []" by simp
    with False show ?thesis by (subst solve_loop.simps) simp
  next
    case le: True
    then have u: "[t..iterations] = t # [t + 1..iterations]" by (rule upto_rec1)
    show ?thesis
    proof (cases "should_stop e")
      case True
      then show ?thesis unfolding u by (subst solve_loop.simps) simp
    next
      case False
      with le 1 have "solve_loop run cb iterations (t + 1) (solve_iteration run cb iterations t e) =
          spec_solve_steps run cb iterations [t + 1..iterations] (solve_iteration run cb iterations t e)"
        by simp
      with le False show ?thesis
        unfolding u by (subst solve_loop.simps) (simp add: solve_iteration_spec)
    qed
  qed
qed

lemma solve_spec:
  "solve run cb iterations e =
     spec_solve_steps run cb iterations [1..iterations]
       (e\<lparr>max_iterations := iterations, iteration_regrets := [], should_stop := False\<rparr>)"
  by (simp add: solve_def solve_loop_spec)

lemma apply_discount_should_stop: "should_stop (apply_discount x t) = should_stop x"
  by (simp add: apply_discount_def Let_def)

lemma spec_solve_steps_discounts_only:
  assumes "\<not> should_stop x"
  shows "spec_solve_steps (\<lambda>t x. x) None iterations ts x =
         fold (\<lambda>t x. apply_discount x t) (filter even ts) x"
  using assms
  by (induction ts arbitrary: x) (simp_all add: spec_report_progress_def apply_discount_should_stop)

lemma solve_discount_schedule:
  "solve (\<lambda>t x. x) None iterations e =
     fold (\<lambda>t x. apply_discount x t) (filter even [1..iterations])
       (e\<lparr>max_iterations := iterations, iteration_regrets := [], should_stop := False\<rparr>)"
  unfolding solve_spec by (rule spec_solve_steps_discounts_only) simp

lemma upto_1_4: "[1..4] = [1, 2, 3, 4::int]"
  by (simp add: upto_rec1)

lemma solve_four_iterations:
  assumes "\<And>t x. should_stop (run t x) = should_stop x"
  shows "solve run None 4 e =
     apply_discount (run 4 (run 3 (apply_discount
       (run 2 (run 1 (e\<lparr>max_iterations := 4, iteration_regrets := [], should_stop := False\<rparr>))) 2))) 4"
  unfolding solve_spec upto_1_4
  by (simp add: spec_report_progress_def assms apply_discount_should_stop)


text \<open>
  C5. The loop of \<open>solve\<close> does what the specification says for every number of
  iterations, every \<open>run_iteration\<close> and every progress callback: for \<open>t\<close> from 1 to
  the number of iterations, while the stop flag is clear, it runs the iteration and then
  applies the discount exactly when \<open>t\<close> is even; with an iteration that changes
  nothing, what is left of a run are the discounts of the even numbers up to the number
  of iterations, in order (at 2 and 4 for four iterations). The discount multiplies every
  positive cumulative regret by \<open>d = t powr alpha / (t powr alpha + 1)\<close>, every negative
  one by 1/2, and every entry of the cumulative strategy by
  \<open>dc = t powr gamma / (t powr gamma + 1)\<close>; the default exponents are
  \<open>alpha = 1.5\<close> and \<open>gamma = 2\<close>, and with them, at \<open>t = 2\<close>, a positive regret
  \<open>R\<close> becomes \<open>R * 2 powr 1.5 / (2 powr 1.5 + 1)\<close> and a negative regret \<open>- R\<close>
  becomes \<open>- R / 2\<close>.
\<close>

theorem dcfr_discount:
  assumes "n < length (node_regrets e)"
    and "regrets (node_regrets e ! n) c = Some r"
    and "cumulative_strategy (node_regrets e ! n) c = Some cs"
    and "d = real_of_int t powr alpha (config e) / (real_of_int t powr alpha (config e) + 1)"
    and "dc = real_of_int t powr gamma (config e) / (real_of_int t powr gamma (config e) + 1)"
    and "0 < R"
    and "e0 = e\<lparr>max_iterations := iterations, iteration_regrets := [], should_stop := False\<rparr>"
  shows "solve run cb iterations e = spec_solve_steps run cb iterations [1..iterations] e0 \<and>
         solve_iteration run cb iterations t e =
           spec_report_progress cb iterations t
             (if t mod 2 = 0 then apply_discount (run t e) t else run t e) \<and>
         solve (\<lambda>t x. x) None iterations e =
           fold (\<lambda>t x. apply_discount x t) (filter (\<lambda>t. t mod 2 = 0) [1..iterations]) e0 \<and>
         ((\<forall>t x. should_stop (run t x) = should_stop x) \<longrightarrow>
            solve run None 2 e =
              apply_discount
                (run 2 (run 1 (e\<lparr>max_iterations := 2, iteration_regrets := [],
                                   should_stop := False\<rparr>))) 2 \<and>
            solve run None 4 e =
              apply_discount
                (run 4 (run 3 (apply_discount
                   (run 2 (run 1 (e\<lparr>max_iterations := 4, iteration_regrets := [],
                                      should_stop := False\<rparr>))) 2))) 4) \<and>
         regrets (node_regrets (apply_discount e t) ! n) c =
           Some (map (\<lambda>v. if 0 < v then v * d else if v < 0 then v * (1 / 2) else 0) r) \<and>
         cumulative_strategy (node_regrets (apply_discount e t) ! n) c =
           Some (map (\<lambda>v. v * dc) cs) \<and>
         alpha default_config = 3 / 2 \<and> gamma default_config = 2 \<and>
         (config e = default_config \<and> t = 2 \<longrightarrow>
            discount_regret d R = R * 2 powr (3 / 2) / (2 powr (3 / 2) + 1) \<and>
            discount_regret d (- R) = - R / 2)"
proof -
  have loop: "solve run cb iterations e = spec_solve_steps run cb iterations [1..iterations] e0"
    unfolding assms(7) by (rule solve_spec)
  have body: "solve_iteration run cb iterations t e =
           spec_report_progress cb iterations t
             (if t mod 2 = 0 then apply_discount (run t e) t else run t e)"
    by (simp add: solve_iteration_spec even_iff_mod_2_eq_zero)
  have schedule: "solve (\<lambda>t x. x) None iterations e =
           fold (\<lambda>t x. apply_discount x t) (filter (\<lambda>t. t mod 2 = 0) [1..iterations]) e0"
    unfolding assms(7) using solve_discount_schedule [of iterations e]
    by (simp add: even_iff_mod_2_eq_zero)
  have runs: "solve run None 2 e =
              apply_discount
                (run 2 (run 1 (e\<lparr>max_iterations := 2, iteration_regrets := [],
                                   should_stop := False\<rparr>))) 2 \<and>
            solve run None 4 e =
              apply_discount
                (run 4 (run 3 (apply_discount
                   (run 2 (run 1 (e\<lparr>max_iterations := 4, iteration_regrets := [],
                                      should_stop := False\<rparr>))) 2))) 4"
    if "\<forall>t x. should_stop (run t x) = should_stop x"
    using that solve_two_iterations [of run e] solve_four_iterations [of run e] by simp
  have reg: "regrets (node_regrets (apply_discount e t) ! n) c =
          Some (map (\<lambda>v. if 0 < v then v * d else if v < 0 then v * (1 / 2) else 0) r)"
    using apply_discount_regrets(1) [OF assms(1), of t c] assms(2,4)
    by (simp add: discount_regret_cases)
  have cum: "cumulative_strategy (node_regrets (apply_discount e t) ! n) c =
          Some (map (\<lambda>v. v * dc) cs)"
    using apply_discount_regrets(2) [OF assms(1), of t c] assms(3,5) by simp
  have dflt: "alpha default_config = 3 / 2" "gamma default_config = 2"
    by (simp_all add: default_config_def)
  have two: "discount_regret d R = R * 2 powr (3 / 2) / (2 powr (3 / 2) + 1) \<and>
            discount_regret d (- R) = - R / 2" if "config e = default_config" "t = 2"
    using that assms(4,6) by (simp add: discount_regret_def default_config_def)
  from loop body schedule runs reg cum dflt two show ?thesis by blast
qed

theorem dcfr_discount_witness:
  "regrets (node_regrets (apply_discount three_action_engine 2) ! 0) 0 =
     Some [3 * (2 powr (3 / 2) / (2 powr (3 / 2) + 1)), - 1 * (1 / 2),
           2 * (2 powr (3 / 2) / (2 powr (3 / 2) + 1))] \<and>
   cumulative_strategy (node_regrets (apply_discount three_action_engine 2) ! 0) 0 =
     Some [2 * (2 powr 2 / (2 powr 2 + 1)), 0 * (2 powr 2 / (2 powr 2 + 1)),
           1 * (2 powr 2 / (2 powr 2 + 1))] \<and>
   solve (\<lambda>t x. x) None 2 three_action_engine =
     apply_discount (three_action_engine\<lparr>max_iterations := 2, iteration_regrets := [],
                                        should_stop := False\<rparr>) 2"
proof -
  have h1: "0 < length (node_regrets three_action_engine)"
    by (simp add: three_action_regrets)
  have h2: "regrets (node_regrets three_action_engine ! 0) 0 = Some [3, - 1, 2]"
    by (simp add: three_action_regrets)
  have h3: "cumulative_strategy (node_regrets three_action_engine ! 0) 0 = Some [2, 0, 1]"
    by (simp add: three_action_regrets)
  have c: "config three_action_engine = default_config"
    by (simp add: three_action_engine_def)
  have h4: "2 powr (3 / 2) / (2 powr (3 / 2) + 1) =
            real_of_int 2 powr alpha (config three_action_engine) /
              (real_of_int 2 powr alpha (config three_action_engine) + 1)"
    by (simp add: c default_config_def)
  have h5: "2 powr 2 / (2 powr 2 + 1) =
            real_of_int 2 powr gamma (config three_action_engine) /
              (real_of_int 2 powr gamma (config three_action_engine) + 1)"
    by (simp add: c default_config_def)
  have h6: "0 < (1::real)" by simp
  from dcfr_discount [OF h1 h2 h3 h4 h5 h6 refl, where run = "\<lambda>t x. x" and cb = None
      and iterations = 2]
  show ?thesis
    by (simp add: upto_rec1 spec_report_progress_def apply_discount_should_stop)
qed

subsection \<open>Terminal values at a river showdown\<close>

lemma terminal_ev_river:
  assumes "\<not> pot node < 1 / 100" and "board_len node = 5"
  shows "terminal_ev calc e node 0 i j =
           (if evaluate (cards (oop_combos e ! nat i)) (take 5 (board node)) 5 >
               evaluate (cards (ip_combos e ! nat j)) (take 5 (board node)) 5 then 1
            else if evaluate (cards (oop_combos e ! nat i)) (take 5 (board node)) 5 <
                    evaluate (cards (ip_combos e ! nat j)) (take 5 (board node)) 5 then 0
            else 1 / 2) * pot node
           - (stacks (node_at e (root_id e)) ! 0 - stacks node ! 0)"
    and "terminal_ev calc e node 1 j i =
           (if evaluate (cards (ip_combos e ! nat j)) (take 5 (board node)) 5 >
               evaluate (cards (oop_combos e ! nat i)) (take 5 (board node)) 5 then 1
            else if evaluate (cards (ip_combos e ! nat j)) (take 5 (board node)) 5 <
                    evaluate (cards (oop_combos e ! nat i)) (take 5 (board node)) 5 then 0
            else 1 / 2) * pot node
           - (stacks (node_at e (root_id e)) ! 1 - stacks node ! 1)"
  using assms by (simp_all add: terminal_ev_def Let_def)

lemma showdown_equities_sum:
  "(if (r1::HandRank) > r2 then 1 else if r1 < r2 then 0 else 1 / 2) +
   (if r2 > r1 then 1 else if r2 < r1 then 0 else 1 / 2) = (1::real)"
  by auto

lemma terminal_ev_river_sum:
  assumes "\<not> pot node < 1 / 100" and "board_len node = 5"
  shows "terminal_ev calc e node 0 i j + terminal_ev calc e node 1 j i =
         pot node - (stacks (node_at e (root_id e)) ! 0 - stacks node ! 0)
                  - (stacks (node_at e (root_id e)) ! 1 - stacks node ! 1)"
proof -
  let ?r1 = "evaluate (cards (oop_combos e ! nat i)) (take 5 (board node)) 5"
  let ?r2 = "evaluate (cards (ip_combos e ! nat j)) (take 5 (board node)) 5"
  have "terminal_ev calc e node 0 i j + terminal_ev calc e node 1 j i =
        ((if ?r1 > ?r2 then 1 else if ?r1 < ?r2 then 0 else 1 / 2) +
         (if ?r2 > ?r1 then 1 else if ?r2 < ?r1 then 0 else 1 / 2)) * pot node
        - (stacks (node_at e (root_id e)) ! 0 - stacks node ! 0)
        - (stacks (node_at e (root_id e)) ! 1 - stacks node ! 1)"
    unfolding terminal_ev_river [OF assms] by (simp add: algebra_simps)
  then show ?thesis by (simp only: showdown_equities_sum mult_1)
qed

lemma river_root: "stacks (node_at river_engine (root_id river_engine)) = [100, 100]"
  by (simp add: node_at_def river_engine_def pool_of_nodes_def mmap_index_def
      size_t_of_int_def new_pool_def new_buffer_def river_root_node_def zero_node_def)

lemma river_node_fields:
  "pot river_node = 100" "board_len river_node = 5" "stacks river_node = [100, 100]"
  "board river_node = [0, 1, 2, 23, 28]"
  by (simp_all add: river_node_def zero_node_def)

lemma river_combos:
  "cards (oop_combos river_engine ! nat 0) = [51, 50]"
  "cards (ip_combos river_engine ! nat 0) = [47, 46]"
  by (simp_all add: river_engine_def)

lemma aces_beat_kings:
  "evaluate [47, 46] [0, 1, 2, 23, 28] 5 < evaluate [51, 50] [0, 1, 2, 23, 28] 5"
  by code_simp

text \<open>
  C2, as stated, fails: at the river showdown after check, check, with the pot of 100 of
  the root and both stacks as at the root, the terminal value of the aces (traverser 0)
  is 100 and that of the kings (traverser 1) is 0, and the two values sum to 100.
\<close>

theorem terminal_ev_zero_sum_counterexample:
  "\<not> pot river_node < 1 / 100 \<and> board_len river_node = 5 \<and>
   \<not> cards_conflict (cards (oop_combos river_engine ! 0)) (cards (ip_combos river_engine ! 0)) \<and>
   \<not> cards_conflict_board (cards (oop_combos river_engine ! 0)) (board river_node) 5 \<and>
   \<not> cards_conflict_board (cards (ip_combos river_engine ! 0)) (board river_node) 5 \<and>
   terminal_ev half_equity river_engine river_node 0 0 0 = 100 \<and>
   terminal_ev half_equity river_engine river_node 1 0 0 = 0 \<and>
   terminal_ev half_equity river_engine river_node 0 0 0 + terminal_ev half_equity river_engine river_node 1 0 0 \<noteq> 0"
proof -
  have p: "\<not> pot river_node < 1 / 100" and l: "board_len river_node = 5"
    by (simp_all add: river_node_fields)
  have v0: "terminal_ev half_equity river_engine river_node 0 0 0 = 100"
    unfolding terminal_ev_river(1) [OF p l] river_combos
    using aces_beat_kings by (simp add: river_root river_node_fields)
  have v1: "terminal_ev half_equity river_engine river_node 1 0 0 = 0"
    unfolding terminal_ev_river(2) [OF p l] river_combos
    using aces_beat_kings by (simp add: river_root river_node_fields)
  have "\<not> cards_conflict (cards (oop_combos river_engine ! 0)) (cards (ip_combos river_engine ! 0))"
    by (simp add: river_engine_def cards_conflict_def)
  moreover have
    "\<not> cards_conflict_board (cards (oop_combos river_engine ! 0)) (board river_node) 5"
    "\<not> cards_conflict_board (cards (ip_combos river_engine ! 0)) (board river_node) 5"
    by (simp_all add: river_engine_def cards_conflict_board_def river_node_fields upt_rec)
  ultimately show ?thesis using p l v0 v1 by simp
qed

text \<open>
  C2, amended. At a river showdown terminal node (pot not below the threshold, five
  board cards), for every pair of combos, the terminal value for the traverser 0 plus
  the terminal value for the traverser 1 is the pot of the node minus the chips the two
  players have put in since the root (root stack minus node stack, for each); so the
  sum is 0 exactly when the pot consists of those chips alone.
\<close>

theorem terminal_ev_river_constant_sum:
  assumes "\<not> pot node < 1 / 100" and "board_len node = 5"
    and "invested0 = stacks (node_at e (root_id e)) ! 0 - stacks node ! 0"
    and "invested1 = stacks (node_at e (root_id e)) ! 1 - stacks node ! 1"
  shows "terminal_ev calc e node 0 i j + terminal_ev calc e node 1 j i =
           pot node - invested0 - invested1 \<and>
         (terminal_ev calc e node 0 i j + terminal_ev calc e node 1 j i = 0 \<longleftrightarrow>
            pot node = invested0 + invested1)"
  using terminal_ev_river_sum [OF assms(1,2), of calc e i j] assms(3,4) by auto

theorem terminal_ev_river_constant_sum_witness:
  "\<not> pot river_node < 1 / 100 \<and> board_len river_node = 5 \<and>
   terminal_ev half_equity river_engine river_node 0 0 0 + terminal_ev half_equity river_engine river_node 1 0 0 =
     pot river_node - 0 - 0"
proof -
  have p: "\<not> pot river_node < 1 / 100" and l: "board_len river_node = 5"
    by (simp_all add: river_node_fields)
  have i0: "0 = stacks (node_at river_engine (root_id river_engine)) ! 0 - stacks river_node ! 0"
    and i1: "0 = stacks (node_at river_engine (root_id river_engine)) ! 1 - stacks river_node ! 1"
    by (simp_all add: river_root river_node_fields)
  from terminal_ev_river_constant_sum [OF p l i0 i1, of half_equity 0 0] p l
  show ?thesis by blast
qed

section \<open>Properties of the tree builder\<close>

subsection \<open>The all-in action\<close>







lemmas builder_defs =
  build_tree_def write_node_to_pool_def write_chance_node_def enumerate_actions_def
  fold_action_def check_call_action_def sized_action_def allin_action_def
  get_state_key_def fixed2_def round_half_even_def push_back_def mmap_size_def mmap_clear_def
  pool_clear_def new_pool_def new_buffer_def bind_r_def ok_def mk_action_def bet_sizes_for_def
  copy_board_def representative_cards_def board_mask_def add_card_to_mask_def mask_has_card_def
  make_card_def mmap_index_def mmap_assign_def size_t_of_int_def
  RIVER_street_def TURN_street_def FLOP_street_def zero_node_def



subsection \<open>What a written node holds\<close>

lemma bind_r_Inr:
  "bind_r m f = Some (Inr r) \<Longrightarrow> \<exists>x. m = Some (Inr x) \<and> f x = Some (Inr r)"
  by (auto simp: bind_r_def split: option.splits sum.splits)

lemma push_back_Inr:
  assumes "push_back buf x = Inr buf'"
  shows "buf_count buf' = buf_count buf + 1 \<and>
         buf_data buf' = (buf_data buf)(buf_count buf := x)"
  using assms by (auto simp: push_back_def split: if_splits)

lemma push_all_Inr:
  assumes "push_all buf xs = Inr buf'"
  shows "buf_count buf' = buf_count buf + length xs \<and>
         (\<forall>k < length xs. buf_data buf' (buf_count buf + k) = xs ! k) \<and>
         (\<forall>j < buf_count buf. buf_data buf' j = buf_data buf j)"
  using assms
proof (induction xs arbitrary: buf)
  case Nil
  then show ?case by simp
next
  case (Cons x xs)
  from Cons.prems obtain buf1 where b1: "push_back buf x = Inr buf1"
    and rest: "push_all buf1 xs = Inr buf'"
    by (auto split: sum.splits)
  from push_back_Inr [OF b1] have c1: "buf_count buf1 = buf_count buf + 1"
    and d1: "buf_data buf1 = (buf_data buf)(buf_count buf := x)" by simp_all
  from Cons.IH [OF rest] have c: "buf_count buf' = buf_count buf1 + length xs"
    and new: "\<forall>k < length xs. buf_data buf' (buf_count buf1 + k) = xs ! k"
    and old: "\<forall>j < buf_count buf1. buf_data buf' j = buf_data buf1 j" by simp_all
  have "buf_data buf' (buf_count buf + k) = (x # xs) ! k" if "k < length (x # xs)" for k
  proof (cases k)
    case 0
    then show ?thesis using old c1 d1 by simp
  next
    case (Suc k')
    then show ?thesis using new that c1 by simp
  qed
  moreover have "buf_data buf' j = buf_data buf j" if "j < buf_count buf" for j
    using old that c1 d1 by simp
  ultimately show ?case using c c1 by simp
qed

lemma write_node_to_pool_stored:
  assumes "write_node_to_pool uninit b key player' street' pot' oop_stack' ip_stack' to_call'
             acts ids board' = Inr (i, b')"
  shows "i = int (buf_count (nodes (builder_pool b)))"
    and "to_call (buf_data (nodes (builder_pool b')) (nat i)) = max 0 to_call'"
    and "0 \<le> to_call (buf_data (nodes (builder_pool b')) (nat i))"
    and "action_count (buf_data (nodes (builder_pool b')) (nat i)) = length acts mod 256"
    and "\<forall>k < length acts.
           buf_data (actions (builder_pool b'))
             (action_start (buf_data (nodes (builder_pool b')) (nat i)) + k) = acts ! k"
proof -
  let ?p = "builder_pool b"
  from assms obtain actions' child_ids' nodes' node where
    a: "push_all (actions ?p) acts = Inr actions'" and
    n: "push_back (nodes ?p) node = Inr nodes'" and
    node: "to_call node = max 0 to_call'" "action_count node = length acts mod 256"
          "action_start node = buf_count (actions ?p)" and
    i: "i = int (buf_count (nodes ?p))" and
    b': "builder_pool b' = ?p\<lparr>nodes := nodes', actions := actions', child_ids := child_ids'\<rparr>"
    by (auto simp: write_node_to_pool_def Let_def mmap_size_def split: sum.splits)
  from push_back_Inr [OF n] have stored: "buf_data nodes' (buf_count (nodes ?p)) = node" by simp
  show "i = int (buf_count (nodes (builder_pool b)))" by (rule i)
  show "to_call (buf_data (nodes (builder_pool b')) (nat i)) = max 0 to_call'"
    using b' i stored node by simp
  then show "0 \<le> to_call (buf_data (nodes (builder_pool b')) (nat i))" by simp
  show "action_count (buf_data (nodes (builder_pool b')) (nat i)) = length acts mod 256"
    using b' i stored node by simp
  show "\<forall>k < length acts.
           buf_data (actions (builder_pool b'))
             (action_start (buf_data (nodes (builder_pool b')) (nat i)) + k) = acts ! k"
    using b' i stored node push_all_Inr [OF a] by simp
qed

lemma write_chance_node_stored:
  assumes "write_chance_node uninit b oop_s ip_s pot' next_street board' ccards cids = Inr (i, b')"
  shows "i = int (buf_count (nodes (builder_pool b))) \<and>
         node_type (buf_data (nodes (builder_pool b')) (nat i)) = CHANCE \<and>
         to_call (buf_data (nodes (builder_pool b')) (nat i)) = to_call uninit"
  using assms
  by (auto simp: write_chance_node_def Let_def push_back_def mmap_size_def
      split: sum.splits if_splits)

text \<open>
  At a decision state the node that \<open>build_recursive\<close> writes carries the enumerated
  actions, in their order.
\<close>

lemma build_recursive_writes_enumerated_actions:
  assumes "build_recursive (Suc n) g b oop_stack' ip_stack' pot' player' street' board'
             raise_count current_bet actor_invested is_all_in = Some (Inr (i, b'))"
    and "\<not> street' > RIVER_street"
    and "transposition_table b (get_state_key oop_stack' ip_stack' pot' player' street' board'
           current_bet actor_invested raise_count is_all_in) = None"
    and "\<not> (is_all_in \<and> current_bet - actor_invested < 1 / 100)"
    and "acts = enumerate_actions (builder_config b) oop_stack' ip_stack' pot' player' street'
                  board' raise_count current_bet actor_invested"
  shows "action_count (buf_data (nodes (builder_pool b')) (nat i)) = length acts mod 256 \<and>
         (\<forall>k < length acts.
            buf_data (actions (builder_pool b'))
              (action_start (buf_data (nodes (builder_pool b')) (nat i)) + k) = fst (acts ! k))"
proof -
  from assms(1-4) obtain x where
    "(\<lambda>(local_child_ids, b1).
        Some (write_node_to_pool (g (mmap_size (nodes (builder_pool b1)))) b1
                (get_state_key oop_stack' ip_stack' pot' player' street' board'
                   current_bet actor_invested raise_count is_all_in)
                player' street' pot' oop_stack' ip_stack' (current_bet - actor_invested)
                (map fst acts) local_child_ids board')) x = Some (Inr (i, b'))"
    unfolding assms(5) by (auto simp: Let_def dest!: bind_r_Inr)
  then obtain ids b1 where
    "write_node_to_pool (g (mmap_size (nodes (builder_pool b1)))) b1
       (get_state_key oop_stack' ip_stack' pot' player' street' board'
          current_bet actor_invested raise_count is_all_in)
       player' street' pot' oop_stack' ip_stack' (current_bet - actor_invested)
       (map fst acts) ids board' = Inr (i, b')"
    by (cases x) auto
  from write_node_to_pool_stored(4,5) [OF this] show ?thesis by simp
qed

lemma add_chance_node_recursive_stored:
  assumes "add_chance_node_recursive (Suc n) g b oop_s ip_s pot' next_street board' =
             Some (Inr (i, b'))"
  shows "0 \<le> i \<and> node_type (buf_data (nodes (builder_pool b')) (nat i)) = CHANCE \<and>
         to_call (buf_data (nodes (builder_pool b')) (nat i)) = to_call (g (nat i))"
proof -
  from assms obtain x where
    "(\<lambda>(chance_child_ids, b1).
        Some (write_chance_node (g (mmap_size (nodes (builder_pool b1)))) b1 oop_s ip_s pot'
                next_street board' (representative_cards board') chance_child_ids)) x =
     Some (Inr (i, b'))"
    by (auto simp: Let_def dest!: bind_r_Inr)
  then obtain cids b1 where
    "write_chance_node (g (mmap_size (nodes (builder_pool b1)))) b1 oop_s ip_s pot'
       next_street board' (representative_cards board') cids = Inr (i, b')"
    by (cases x) auto
  from write_chance_node_stored [OF this] show ?thesis
    by (auto simp: mmap_size_def)
qed

text \<open>
  C8 says that every node the builder writes into the pool stores \<open>to_call \<ge> 0\<close>.
  The nodes written by \<open>write_node_to_pool\<close> do: it stores \<open>max 0 to_call\<close>
  (lemma \<open>write_node_to_pool_stored\<close>). The chance nodes do not:
  \<open>add_chance_node_recursive\<close> pushes its node without ever assigning \<open>to_call\<close>
  (lemma \<open>add_chance_node_recursive_stored\<close>). In the turn build without bets the
  pool has 43 nodes, the node 40 is the chance node to the river, and its \<open>to_call\<close>
  is what the uninitialised struct held: here -1.
\<close>

theorem chance_node_to_call_unassigned:
  "(case build_tree (Suc (Suc (Suc (Suc (Suc (Suc 0)))))) stack_garbage check_down_config turn_board of
      Some (Inr p) \<Rightarrow>
        buf_count (nodes p) = 43 \<and>
        node_type (buf_data (nodes p) 40) = CHANCE \<and>
        to_call (buf_data (nodes p) 40) = to_call (stack_garbage 40) \<and>
        to_call (buf_data (nodes p) 40) < 0
    | _ \<Rightarrow> False)"
  by (simp add: builder_defs Let_def check_down_config_def turn_board_def stack_garbage_def)

end
